theory Spec2Isabelle
  imports
    Main
    "HOL-Library.Char_ord"
    "HOL-Library.List_Lexorder"
    "HOL-Library.Product_Lexorder"
    "HOL-Library.Multiset"
    "HOL-Library.Sublist"
begin

unbundle bit_operations_syntax

section \<open>The serializer of ts-api-guardian (src/lib/serializer.ts)\<close>

text \<open>
  The serializer walks the syntax tree that the TypeScript compiler delivers for a
  declaration file and prints the exported declarations, without comments and private
  members, in a canonical order. The tree, the symbol table and a handful of library
  functions come from the TypeScript compiler and the JavaScript runtime; they are data and
  parameters here. Every function of \<^verbatim>\<open>serializer.ts\<close> is a function of the same
  name below; a \<^verbatim>\<open>throw\<close> is the left summand of the result.
\<close>

subsection \<open>What the TypeScript compiler delivers\<close>

text \<open>The syntax kinds the serializer tests for; every other kind is \<open>OtherKind\<close>.\<close>

datatype syntax_kind =
    SyntaxList
  | ClassDeclaration
  | InterfaceDeclaration
  | PropertySignature
  | PropertyDeclaration
  | GetAccessor
  | SetAccessor
  | CallSignature
  | Constructor
  | ConstructSignature
  | IndexSignature
  | MethodSignature
  | MethodDeclaration
  | PropertyAccessExpression
  | TypeReference
  | Identifier
  | QualifiedName
  | OtherKind nat

text \<open>
  The bits of \<^verbatim>\<open>ts.NodeFlags\<close> and \<^verbatim>\<open>ts.SymbolFlags\<close> that the serializer masks
  with (the values of TypeScript 1.8; all that is used of them is that each is one bit).
\<close>

definition NodeFlags_Export :: nat where "NodeFlags_Export = 2"
definition NodeFlags_Private :: nat where "NodeFlags_Private = 16"
definition NodeFlags_Static :: nat where "NodeFlags_Static = 64"
definition SymbolFlags_Alias :: nat where "SymbolFlags_Alias = 8388608"

text \<open>What the serializer reads of the source file a node belongs to.\<close>

record source_text =
  fileName :: string
  fileText :: string

text \<open>
  A node: the properties and the results of the methods of \<^verbatim>\<open>ts.Node\<close> that the
  serializer reads. \<open>endPos\<close> is \<^verbatim>\<open>node.end\<close>, \<open>idText\<close> is the \<^verbatim>\<open>text\<close> of an
  identifier; a property that is \<^verbatim>\<open>undefined\<close> is \<open>None\<close>.
\<close>

record node_attrs =
  kind :: syntax_kind
  flags :: nat
  pos :: nat
  endPos :: nat
  getStart :: nat
  getText :: string
  idText :: string
  getSourceFile :: "source_text option"

datatype node = Node
  (attrs: node_attrs)
  (getChildren: "node list")
  (parent: "node option")
  (name: "node option")
  (expression: "node option")
  (typeName: "node option")
  (left: "node option")

record symbol =
  sym_name :: string
  sym_flags :: nat
  valueDeclaration :: "node option"
  declarations :: "node list option"

text \<open>A parsed file as \<^verbatim>\<open>program.getSourceFiles()\<close> lists it.\<close>

record source_file =
  sf_fileName :: string
  sf_symbol :: "symbol option"

text \<open>The program and its type checker.\<close>

record program =
  getSourceFiles :: "source_file list"
  getExportsOfModule :: "symbol \<Rightarrow> symbol list option"
  getAliasedSymbol :: "symbol \<Rightarrow> symbol"

record comment_range =
  range_pos :: nat
  range_end :: nat

text \<open>
  The library functions the serializer calls: \<^verbatim>\<open>ts.getLeadingCommentRanges\<close>,
  \<^verbatim>\<open>sourceFile.getLineAndCharacterOfPosition\<close>, \<^verbatim>\<open>String.prototype.localeCompare\<close>
  and \<^verbatim>\<open>path.normalize\<close>.
\<close>

record library =
  getLeadingCommentRanges :: "string \<Rightarrow> nat \<Rightarrow> comment_range list option"
  getLineAndCharacterOfPosition :: "source_text \<Rightarrow> nat \<Rightarrow> nat \<times> nat"
  localeCompare :: "string \<Rightarrow> string \<Rightarrow> int"
  path_normalize :: "string \<Rightarrow> string"

text \<open>
  \<^verbatim>\<open>SerializationOptions\<close>: both options may be omitted. The regular expression is
  the predicate that \<^verbatim>\<open>name.match\<close> decides.
\<close>

record serialization_options =
  stripExportPattern :: "(string \<Rightarrow> bool) option"
  allowModuleIdentifiers :: "string list option"

subsection \<open>Errors\<close>

datatype position = Position string nat nat | UnknownPosition

text \<open>
  The four \<^verbatim>\<open>throw new Error\<close> of the file, and the \<^verbatim>\<open>TypeError\<close> of the runtime
  when a property of \<^verbatim>\<open>undefined\<close> is read.
\<close>

datatype error =
    NotADeclarationFile string
  | EntryFileNotFound string
  | AliasRenamed string string
  | UnlistedModuleIdentifier position string
  | TypeError

subsection \<open>The JavaScript runtime\<close>

text \<open>
  \<^verbatim>\<open>s.substring(a, b)\<close>: both indices are clamped to the length, and they are swapped
  when the first is the larger.
\<close>

definition substring :: "string \<Rightarrow> nat \<Rightarrow> nat \<Rightarrow> string" where
  "substring s a b =
     (let a' = min a (length s); b' = min b (length s)
      in take (max a' b' - min a' b') (drop (min a' b') s))"

text \<open>\<^verbatim>\<open>s.split(sep)\<close> for a separator of one character: never the empty list.\<close>

fun split :: "char \<Rightarrow> string \<Rightarrow> string list" where
  "split sep [] = [[]]"
| "split sep (c # cs) =
     (if c = sep then [] # split sep cs
      else (case split sep cs of
              [] \<Rightarrow> [[c]]
            | l # ls \<Rightarrow> (c # l) # ls))"

text \<open>\<^verbatim>\<open>xs.join(sep)\<close>.\<close>

fun join :: "string \<Rightarrow> string list \<Rightarrow> string" where
  "join sep [] = []"
| "join sep [x] = x"
| "join sep (x # y # ys) = x @ sep @ join sep (y # ys)"

text \<open>
  \<^verbatim>\<open>xs.sort(cmp)\<close> as the stable sort that ECMAScript requires: insertion from the
  right, each element placed before the first one it does not compare greater than.
\<close>

fun insort_by :: "('a \<Rightarrow> 'a \<Rightarrow> int) \<Rightarrow> 'a \<Rightarrow> 'a list \<Rightarrow> 'a list" where
  "insort_by cmp x [] = [x]"
| "insort_by cmp x (y # ys) =
     (if cmp x y \<le> 0 then x # y # ys else y # insort_by cmp x ys)"

definition array_sort :: "('a \<Rightarrow> 'a \<Rightarrow> int) \<Rightarrow> 'a list \<Rightarrow> 'a list" where
  "array_sort cmp xs = foldr (insort_by cmp) xs []"

text \<open>\<^verbatim>\<open>x || y\<close> on numbers.\<close>

definition js_or :: "int \<Rightarrow> int \<Rightarrow> int" where
  "js_or x y = (if x \<noteq> 0 then x else y)"

text \<open>
  \<^verbatim>\<open>xs.map(f).join('')\<close> where \<open>f\<close> may throw: the first exception in list order, else
  the concatenation.
\<close>

fun map_join :: "(error + string) list \<Rightarrow> error + string" where
  "map_join [] = Inr []"
| "map_join (Inl e # rs) = Inl e"
| "map_join (Inr s # rs) = (case map_join rs of Inl e \<Rightarrow> Inl e | Inr t \<Rightarrow> Inr (s @ t))"

subsection \<open>The serializer\<close>

text \<open>
  \<^verbatim>\<open>compareFunction<T>\<close>: \<^verbatim>\<open>a === b ? 0 : a > b ? 1 : -1\<close>, on values that may be
  \<^verbatim>\<open>undefined\<close> (a lookup in \<open>memberDeclarationOrder\<close>); \<^verbatim>\<open>>\<close> is false when a side is
  \<^verbatim>\<open>undefined\<close>.
\<close>

definition compareFunction :: "'a::linorder option \<Rightarrow> 'a option \<Rightarrow> int" where
  "compareFunction a b =
     (if a = b then 0
      else if (case a of None \<Rightarrow> False
               | Some x \<Rightarrow> (case b of None \<Rightarrow> False | Some y \<Rightarrow> x > y))
      then 1 else - 1)"

definition symbolCompareFunction :: "library \<Rightarrow> symbol \<Rightarrow> symbol \<Rightarrow> int" where
  "symbolCompareFunction L a b = localeCompare L (sym_name a) (sym_name b)"

fun memberDeclarationOrder :: "syntax_kind \<Rightarrow> nat option" where
  "memberDeclarationOrder PropertySignature = Some 0"
| "memberDeclarationOrder PropertyDeclaration = Some 0"
| "memberDeclarationOrder GetAccessor = Some 0"
| "memberDeclarationOrder SetAccessor = Some 0"
| "memberDeclarationOrder CallSignature = Some 1"
| "memberDeclarationOrder Constructor = Some 2"
| "memberDeclarationOrder ConstructSignature = Some 2"
| "memberDeclarationOrder IndexSignature = Some 3"
| "memberDeclarationOrder MethodSignature = Some 4"
| "memberDeclarationOrder MethodDeclaration = Some 4"
| "memberDeclarationOrder _ = None"

definition stripEmptyLines :: "string \<Rightarrow> string" where
  "stripEmptyLines t =
     join [CHR 0x0A] (filter (\<lambda>x. length x \<noteq> 0) (split (CHR 0x0A) t))"

text \<open>
  The two loops of \<open>getFirstQualifier\<close>,
  \<^verbatim>\<open>do { lhs = lhs.expression } while (lhs && lhs.kind !== Identifier)\<close> and the same
  with \<^verbatim>\<open>left\<close>, started at \<open>lhs\<close>.
\<close>

fun leftmostExpression :: "node \<Rightarrow> node option" where
  "leftmostExpression (Node a cs p nm e tn l) =
     (case e of
        None \<Rightarrow> None
      | Some lhs \<Rightarrow> if kind (attrs lhs) \<noteq> Identifier then leftmostExpression lhs else Some lhs)"

fun leftmostName :: "node \<Rightarrow> node option" where
  "leftmostName (Node a cs p nm e tn l) =
     (case l of
        None \<Rightarrow> None
      | Some lhs \<Rightarrow> if kind (attrs lhs) \<noteq> Identifier then leftmostName lhs else Some lhs)"

text \<open>
  \<open>getFirstQualifier\<close>: \<^verbatim>\<open>null\<close> and \<^verbatim>\<open>undefined\<close> are \<open>None\<close>. A type reference
  without \<^verbatim>\<open>typeName\<close> makes the loop read \<^verbatim>\<open>undefined.left\<close>.
\<close>

definition getFirstQualifier :: "node \<Rightarrow> error + node option" where
  "getFirstQualifier n =
     (if kind (attrs n) = PropertyAccessExpression then Inr (leftmostExpression n)
      else if kind (attrs n) = TypeReference then
        (case typeName n of
           None \<Rightarrow> Inl TypeError
         | Some lhs \<Rightarrow> Inr (leftmostName lhs))
      else Inr None)"

text \<open>
  \<open>createErrorMessage\<close>: the position that starts the message, and the message. The
  line and the character are counted from 1.
\<close>

definition createErrorMessage :: "library \<Rightarrow> node \<Rightarrow> 'm \<Rightarrow> position \<times> 'm" where
  "createErrorMessage L n message =
     (case getSourceFile (attrs n) of
        Some sourceFile \<Rightarrow>
          (case getLineAndCharacterOfPosition L sourceFile (getStart (attrs n)) of
             (line, character) \<Rightarrow>
               (Position (fileName sourceFile) (line + 1) (character + 1), message))
      | None \<Rightarrow> (UnknownPosition, message))"

text \<open>
  The comparison of two members of a class or an interface:
  the static bit, then the table, then the text of the name (of the member itself when it
  has no name).
\<close>

definition nameText :: "node \<Rightarrow> string" where
  "nameText a = getText (attrs (case name a of Some nm \<Rightarrow> nm | None \<Rightarrow> a))"

definition memberCompare :: "node \<Rightarrow> node \<Rightarrow> int" where
  "memberCompare a b =
     js_or
       (js_or (compareFunction (Some (flags (attrs a) AND NodeFlags_Static))
                               (Some (flags (attrs b) AND NodeFlags_Static)))
              (compareFunction (memberDeclarationOrder (kind (attrs a)))
                               (memberDeclarationOrder (kind (attrs b)))))
       (compareFunction (Some (nameText a)) (Some (nameText b)))"

text \<open>
  The order in which the children of a node are rendered: sorted when the node is the
  syntax list of the members of a class or an interface, as they are otherwise.
\<close>

definition parentKind :: "node \<Rightarrow> syntax_kind option" where
  "parentKind n = map_option (\<lambda>p. kind (attrs p)) (parent n)"

definition renderOrder :: "node \<Rightarrow> node list" where
  "renderOrder n =
     (if kind (attrs n) = SyntaxList
         \<and> (parentKind n = Some ClassDeclaration \<or> parentKind n = Some InterfaceDeclaration)
         \<and> list_all (\<lambda>c. memberDeclarationOrder (kind (attrs c)) \<noteq> None) (getChildren n)
      then array_sort memberCompare (getChildren n)
      else getChildren n)"

text \<open>The text of a leaf: from the end of the last leading comment to the end of the node.\<close>

definition commentTail :: "comment_range list option \<Rightarrow> nat \<Rightarrow> nat" where
  "commentTail ranges p =
     fold (\<lambda>r tail. if range_end r > tail then range_end r else tail)
          (case ranges of None \<Rightarrow> [] | Some rs \<Rightarrow> rs) p"

definition leafText :: "library \<Rightarrow> node \<Rightarrow> error + string" where
  "leafText L n =
     (case getSourceFile (attrs n) of
        None \<Rightarrow> Inl TypeError
      | Some sourceFile \<Rightarrow>
          (let sourceText = fileText sourceFile;
               ranges = getLeadingCommentRanges L sourceText (pos (attrs n));
               tail = commentTail ranges (pos (attrs n))
           in Inr (substring sourceText tail (endPos (attrs n)))))"

text \<open>The check of the first qualifier against \<open>allowModuleIdentifiers\<close>.\<close>

definition checkQualifier :: "library \<Rightarrow> serialization_options \<Rightarrow> node \<Rightarrow> error option" where
  "checkQualifier L options n =
     (case getFirstQualifier n of
        Inl e \<Rightarrow> Some e
      | Inr None \<Rightarrow> None
      | Inr (Some firstQualifier) \<Rightarrow>
          (if (case allowModuleIdentifiers options of
                 None \<Rightarrow> True
               | Some allowed \<Rightarrow> idText (attrs firstQualifier) \<notin> set allowed)
           then (case createErrorMessage L firstQualifier (idText (attrs firstQualifier)) of
                   (p, m) \<Rightarrow> Some (UnlistedModuleIdentifier p m))
           else None))"

function getSanitizedText :: "library \<Rightarrow> serialization_options \<Rightarrow> node \<Rightarrow> error + string" where
  "getSanitizedText L options n =
     (if flags (attrs n) AND NodeFlags_Private \<noteq> 0 then Inr []
      else (case checkQualifier L options n of
              Some e \<Rightarrow> Inl e
            | None \<Rightarrow>
                if getChildren n \<noteq> []
                then map_join (map (getSanitizedText L options) (renderOrder n))
                else leafText L n))"
  by pat_completeness auto
termination
proof (relation "measure (\<lambda>(L, options, n). size n)")
  show "wf (measure (\<lambda>(L, options, n). size n))" by simp
next
  fix L :: library and options :: serialization_options and n x
  assume x: "x \<in> set (renderOrder n)"
  have ins: "set (insort_by cmp y ys) = insert y (set ys)" for cmp :: "node \<Rightarrow> node \<Rightarrow> int" and y ys
    by (induction ys) auto
  have "set (array_sort cmp ys) = set ys" for cmp :: "node \<Rightarrow> node \<Rightarrow> int" and ys
    unfolding array_sort_def by (induction ys) (simp_all add: ins)
  with x have "x \<in> set (getChildren n)"
    by (simp add: renderOrder_def split: if_splits)
  then have "size x \<le> size_list size (getChildren n)"
    by (rule size_list_estimation') simp
  then have "size x < size n"
    by (cases n) simp
  then show "((L, options, x), (L, options, n)) \<in> measure (\<lambda>(L, options, n). size n)"
    by simp
qed

declare getSanitizedText.simps [simp del]

text \<open>
  \<^verbatim>\<open>xs.map(f)\<close> where \<open>f\<close> may throw: the elements are mapped in order and the first
  exception ends the loop.
\<close>

fun map_throw :: "('a \<Rightarrow> error + 'b) \<Rightarrow> 'a list \<Rightarrow> error + 'b list" where
  "map_throw f [] = Inr []"
| "map_throw f (x # xs) =
     (case f x of
        Inl e \<Rightarrow> Inl e
      | Inr y \<Rightarrow> (case map_throw f xs of Inl e \<Rightarrow> Inl e | Inr ys \<Rightarrow> Inr (y # ys)))"

text \<open>The function that \<open>getResolvedSymbols\<close> maps over the raw symbols.\<close>

definition resolveSymbol :: "program \<Rightarrow> symbol \<Rightarrow> error + symbol" where
  "resolveSymbol P s =
     (if sym_flags s AND SymbolFlags_Alias \<noteq> 0 then
        (let resolvedSymbol = getAliasedSymbol P s
         in if valueDeclaration resolvedSymbol = None \<and> declarations resolvedSymbol = None
            then Inr s
            else if sym_name resolvedSymbol \<noteq> sym_name s
            then Inl (AliasRenamed (sym_name resolvedSymbol) (sym_name s))
            else Inr resolvedSymbol)
      else Inr s)"

definition getResolvedSymbols :: "program \<Rightarrow> source_file \<Rightarrow> error + symbol list" where
  "getResolvedSymbols P sourceFile =
     (let rawSymbols =
            (case sf_symbol sourceFile of
               Some ms \<Rightarrow> (case getExportsOfModule P ms of Some xs \<Rightarrow> xs | None \<Rightarrow> [])
             | None \<Rightarrow> [])
      in map_throw (resolveSymbol P) rawSymbols)"

text \<open>
  \<^verbatim>\<open>symbol.valueDeclaration || symbol.declarations && symbol.declarations[0]\<close>.
\<close>

definition symbolDeclaration :: "symbol \<Rightarrow> node option" where
  "symbolDeclaration s =
     (case valueDeclaration s of
        Some d \<Rightarrow> Some d
      | None \<Rightarrow>
          (case declarations s of
             None \<Rightarrow> None
           | Some [] \<Rightarrow> None
           | Some (d # ds) \<Rightarrow> Some d))"

text \<open>
  \<^verbatim>\<open>while (!(decl.flags & ts.NodeFlags.Export) && decl.parent) decl = decl.parent\<close>.
\<close>

fun exportStatement :: "node \<Rightarrow> node" where
  "exportStatement (Node a cs p nm e tn l) =
     (if flags a AND NodeFlags_Export = 0 then
        (case p of
           None \<Rightarrow> Node a cs p nm e tn l
         | Some q \<Rightarrow> exportStatement q)
      else Node a cs p nm e tn l)"

text \<open>
  The state of the loop of \<open>emitResolvedDeclarations\<close>: the output so far and the lines
  written with \<^verbatim>\<open>console.warn\<close> (the names of the symbols warned about). The
  functions below return the last state: its \<open>out\<close> is the string that the source
  returns. When the loop throws, the result is the exception alone.
\<close>

datatype warning = NoDeclaration string | NoExportDeclaration string

record emit_state =
  out :: string
  warnings :: "warning list"

text \<open>
  \<^verbatim>\<open>if (output) { output += '\n'; }\<close> and
  \<^verbatim>\<open>output += stripEmptyLines(text) + '\n'\<close>, for the sanitized text \<open>t\<close>.
\<close>

definition appendEntry :: "string \<Rightarrow> string \<Rightarrow> string" where
  "appendEntry acc t =
     (if acc \<noteq> [] then acc @ [CHR 0x0A] else acc) @ stripEmptyLines t @ [CHR 0x0A]"

fun emitLoop ::
  "library \<Rightarrow> serialization_options \<Rightarrow> symbol list \<Rightarrow> emit_state \<Rightarrow> error + emit_state" where
  "emitLoop L options [] st = Inr st"
| "emitLoop L options (s # ss) st =
     (if (case stripExportPattern options of
            None \<Rightarrow> False
          | Some pattern \<Rightarrow> pattern (sym_name s))
      then emitLoop L options ss st
      else (case symbolDeclaration s of
              None \<Rightarrow>
                emitLoop L options ss
                  (st\<lparr>warnings := warnings st @ [NoDeclaration (sym_name s)]\<rparr>)
            | Some d \<Rightarrow>
                (let decl = exportStatement d
                 in if flags (attrs decl) AND NodeFlags_Export \<noteq> 0 then
                      (case getSanitizedText L options decl of
                         Inl e \<Rightarrow> Inl e
                       | Inr t \<Rightarrow>
                           emitLoop L options ss (st\<lparr>out := appendEntry (out st) t\<rparr>))
                    else emitLoop L options ss
                           (st\<lparr>warnings := warnings st @ [NoExportDeclaration (sym_name s)]\<rparr>))))"

definition emitResolvedDeclarations ::
  "program \<Rightarrow> library \<Rightarrow> string \<Rightarrow> serialization_options \<Rightarrow> error + emit_state" where
  "emitResolvedDeclarations P L file options =
     (case filter (\<lambda>sf. sf_fileName sf = file) (getSourceFiles P) of
        [] \<Rightarrow> Inl (EntryFileNotFound file)
      | sourceFile # _ \<Rightarrow>
          (case getResolvedSymbols P sourceFile of
             Inl e \<Rightarrow> Inl e
           | Inr resolvedSymbols \<Rightarrow>
               emitLoop L options (array_sort (symbolCompareFunction L) resolvedSymbols)
                 \<lparr>out = [], warnings = []\<rparr>))"

text \<open>
  \<open>publicApiInternal\<close>. \<^verbatim>\<open>ts.createProgram\<close> is the front end, a parameter; the
  regular expression \<^verbatim>\<open>/\.d\.ts$/\<close> matches the strings that end in \<^verbatim>\<open>.d.ts\<close>.
\<close>

definition publicApiInternal ::
  "(string list \<Rightarrow> 'o \<Rightarrow> 'h \<Rightarrow> program) \<Rightarrow> library \<Rightarrow> 'h \<Rightarrow> string \<Rightarrow> 'o
     \<Rightarrow> serialization_options \<Rightarrow> error + emit_state" where
  "publicApiInternal createProgram L host file tsOptions options =
     (let entrypoint = path_normalize L file
      in if \<not> suffix ''.d.ts'' entrypoint then Inl (NotADeclarationFile file)
         else emitResolvedDeclarations (createProgram [entrypoint] tsOptions host) L
                entrypoint options)"

text \<open>
  \<open>publicApi\<close>: the default host of the compiler for \<open>baseTsOptions\<close>, which asks for
  the classic module resolution; the options default to none.
\<close>

datatype module_resolution_kind = Classic | NodeJs

record compiler_options =
  moduleResolution :: "module_resolution_kind option"

definition baseTsOptions :: compiler_options where
  "baseTsOptions = \<lparr>moduleResolution = Some Classic\<rparr>"

definition publicApi ::
  "(compiler_options \<Rightarrow> 'h) \<Rightarrow> (string list \<Rightarrow> compiler_options \<Rightarrow> 'h \<Rightarrow> program)
     \<Rightarrow> library \<Rightarrow> string \<Rightarrow> serialization_options option \<Rightarrow> error + emit_state" where
  "publicApi createCompilerHost createProgram L file options =
     publicApiInternal createProgram L (createCompilerHost baseTsOptions) file baseTsOptions
       (case options of
          Some given \<Rightarrow> given
        | None \<Rightarrow> \<lparr>stripExportPattern = None, allowModuleIdentifiers = None\<rparr>)"

subsection \<open>Notions for the properties\<close>



text \<open>
  The key of a member of a class or an interface: the static bit of its flags, its rank in
  \<open>memberDeclarationOrder\<close>, the text of its name. Keys are ordered lexicographically, the
  texts by their characters.
\<close>

definition memberKey :: "node \<Rightarrow> nat \<times> nat \<times> string" where
  "memberKey c =
     (flags (attrs c) AND NodeFlags_Static,
      (case memberDeclarationOrder (kind (attrs c)) of Some r \<Rightarrow> r | None \<Rightarrow> 0),
      nameText c)"

text \<open>
  The symbols that reach the output, each with the statement that is sanitized for it: the
  loop of \<open>emitResolvedDeclarations\<close> without the sanitizer, the output and the warnings.
\<close>

fun entryNodes :: "serialization_options \<Rightarrow> symbol list \<Rightarrow> (symbol \<times> node) list" where
  "entryNodes options [] = []"
| "entryNodes options (s # ss) =
     (if (case stripExportPattern options of
            None \<Rightarrow> False
          | Some pattern \<Rightarrow> pattern (sym_name s))
      then entryNodes options ss
      else (case symbolDeclaration s of
              None \<Rightarrow> entryNodes options ss
            | Some d \<Rightarrow>
                (let decl = exportStatement d
                 in if flags (attrs decl) AND NodeFlags_Export \<noteq> 0
                    then (s, decl) # entryNodes options ss
                    else entryNodes options ss)))"

text \<open>
  What is asked of \<^verbatim>\<open>localeCompare\<close>: it is the comparison of a total preorder. The sign
  of the result turns over with the arguments, and being less or equal is transitive.
  Strings that differ may compare equal.
\<close>

definition consistent_comparison :: "(string \<Rightarrow> string \<Rightarrow> int) \<Rightarrow> bool" where
  "consistent_comparison cmp \<longleftrightarrow>
     (\<forall>a b. (cmp a b < 0) = (cmp b a > 0))
     \<and> (\<forall>a b c. cmp a b \<le> 0 \<longrightarrow> cmp b c \<le> 0 \<longrightarrow> cmp a c \<le> 0)"

text \<open>
  Names that the comparison tells apart: no name is twice in the list, and no two names of
  the list compare equal.
\<close>

definition told_apart :: "(string \<Rightarrow> string \<Rightarrow> int) \<Rightarrow> string list \<Rightarrow> bool" where
  "told_apart cmp names \<longleftrightarrow>
     distinct names \<and> (\<forall>a\<in>set names. \<forall>b\<in>set names. a \<noteq> b \<longrightarrow> cmp a b \<noteq> 0)"

text \<open>
  The raw exported symbols of a source file, as \<open>getResolvedSymbols\<close> reads them:
  \<^verbatim>\<open>ms ? (typeChecker.getExportsOfModule(ms) || []) : []\<close>.
\<close>

definition rawSymbols :: "program \<Rightarrow> source_file \<Rightarrow> symbol list" where
  "rawSymbols P sourceFile =
     (case sf_symbol sourceFile of
        Some ms \<Rightarrow> (case getExportsOfModule P ms of Some xs \<Rightarrow> xs | None \<Rightarrow> [])
      | None \<Rightarrow> [])"





section \<open>Example trees\<close>

text \<open>
  Small trees, as the compiler builds them for one-line declaration files, on which the
  theorems below are run. A token is a leaf; its text is what the file has between its
  start and its end.
\<close>

definition token :: "syntax_kind \<Rightarrow> nat \<Rightarrow> source_text \<Rightarrow> nat \<Rightarrow> nat \<Rightarrow> nat \<Rightarrow> node" where
  "token k f sf p s e =
     Node \<lparr>kind = k, flags = f, pos = p, endPos = e, getStart = s,
           getText = substring (fileText sf) s e, idText = substring (fileText sf) s e,
           getSourceFile = Some sf\<rparr> [] None None None None None"

text \<open>
  The comparison of names in an English locale, for names of ASCII letters and the letter
  \<^verbatim>\<open>e\<close> with an acute accent: by the letters without regard to case; among names that differ
  in case only, the lowercase letter first. A character outside ASCII is written with the
  bytes of its UTF-8 encoding. The accented letter has two writings, one character
  (\<^verbatim>\<open>C3 A9\<close>) and the letter \<^verbatim>\<open>e\<close> with a combining accent (\<^verbatim>\<open>65 CC 81\<close>); they are
  canonically equivalent, and the comparison takes them to be equal.
\<close>

definition foldCase :: "char \<Rightarrow> char" where
  "foldCase c =
     (case map_of (zip ''ABCDEFGHIJKLMNOPQRSTUVWXYZ'' ''abcdefghijklmnopqrstuvwxyz'') c of
        Some d \<Rightarrow> d
      | None \<Rightarrow> c)"

fun compose :: "string \<Rightarrow> string" where
  "compose (a # b # c # cs) =
     (if a = CHR 0x65 \<and> b = CHR 0xCC \<and> c = CHR 0x81 then CHR 0xC3 # CHR 0xA9 # compose cs
      else a # compose (b # c # cs))"
| "compose cs = cs"

definition letterCompare :: "string \<Rightarrow> string \<Rightarrow> int" where
  "letterCompare a b =
     js_or (compareFunction (Some (map foldCase a)) (Some (map foldCase b)))
           (compareFunction (Some b) (Some a))"

definition englishCompare :: "string \<Rightarrow> string \<Rightarrow> int" where
  "englishCompare a b = letterCompare (compose a) (compose b)"



text \<open>
  A library for files without comments, whose lines are not counted (every offset is on
  line 0); \<^verbatim>\<open>localeCompare\<close> is that of an English locale.
\<close>

definition exampleLibrary :: library where
  "exampleLibrary =
     \<lparr>getLeadingCommentRanges = (\<lambda>t p. None),
      getLineAndCharacterOfPosition = (\<lambda>sf p. (0, p)),
      localeCompare = englishCompare,
      path_normalize = (\<lambda>p. p)\<rparr>"


definition noOptions :: serialization_options where
  "noOptions = \<lparr>stripExportPattern = None, allowModuleIdentifiers = None\<rparr>"

text \<open>The member \<^verbatim>\<open>private x: ns.T;\<close> of a class.\<close>

definition privateFile :: source_text where
  "privateFile = \<lparr>fileName = ''a.d.ts'', fileText = ''class A { private x: ns.T; }''\<rparr>"

definition privateMember :: node where
  "privateMember =
     Node \<lparr>kind = PropertyDeclaration, flags = NodeFlags_Private, pos = 9, endPos = 26,
           getStart = 10, getText = ''private x: ns.T;'', idText = [],
           getSourceFile = Some privateFile\<rparr>
       [token (OtherKind 0) 0 privateFile 9 10 17,
        token Identifier 0 privateFile 17 18 19,
        token (OtherKind 1) 0 privateFile 19 19 20,
        Node \<lparr>kind = TypeReference, flags = 0, pos = 20, endPos = 25, getStart = 21,
              getText = ''ns.T'', idText = [], getSourceFile = Some privateFile\<rparr>
          [] None None None
          (Some (Node \<lparr>kind = QualifiedName, flags = 0, pos = 20, endPos = 25, getStart = 21,
              getText = ''ns.T'', idText = [], getSourceFile = Some privateFile\<rparr>
              [] None None None None (Some (token Identifier 0 privateFile 20 21 23)))) None,
        token (OtherKind 2) 0 privateFile 25 25 26]
       None (Some (token Identifier 0 privateFile 17 18 19)) None None None"

text \<open>
  A module \<^verbatim>\<open>index.d.ts\<close> that re-exports the class \<^verbatim>\<open>Foo\<close> of \<^verbatim>\<open>foo.d.ts\<close>
  under its own name and under the name \<^verbatim>\<open>Bar\<close>. The alias \<^verbatim>\<open>Ext\<close> is resolved to a
  symbol without declarations.
\<close>

definition fooSymbol :: symbol where
  "fooSymbol = \<lparr>sym_name = ''Foo'', sym_flags = 32,
      valueDeclaration = Some (token ClassDeclaration NodeFlags_Export
         \<lparr>fileName = ''foo.d.ts'', fileText = ''export declare class Foo {}''\<rparr> 0 0 27),
      declarations = None\<rparr>"

definition unknownSymbol :: symbol where
  "unknownSymbol = \<lparr>sym_name = ''unknown'', sym_flags = 0,
      valueDeclaration = None, declarations = None\<rparr>"

definition aliasSymbol :: "string \<Rightarrow> symbol" where
  "aliasSymbol nm = \<lparr>sym_name = nm, sym_flags = SymbolFlags_Alias,
      valueDeclaration = None, declarations = None\<rparr>"

definition indexSymbol :: symbol where
  "indexSymbol = \<lparr>sym_name = ''index'', sym_flags = 512, valueDeclaration = None, declarations = None\<rparr>"

definition aliasProgram :: program where
  "aliasProgram =
     \<lparr>getSourceFiles = [\<lparr>sf_fileName = ''index.d.ts'', sf_symbol = Some indexSymbol\<rparr>],
      getExportsOfModule = (\<lambda>ms. if sym_name ms = ''index'' then Some [aliasSymbol ''Foo'', aliasSymbol ''Bar''] else None),
      getAliasedSymbol = (\<lambda>s. if sym_name s = ''Ext'' then unknownSymbol else fooSymbol)\<rparr>"


text \<open>
  An interface whose body holds a comment and no member:
  the file is \<^verbatim>\<open>interface I {\<close>, \<^verbatim>\<open>// todo\<close> and \<^verbatim>\<open>}\<close> on three lines. The list
  of the members is empty and lies at offset 13, behind the brace; the comment of the next
  line is at offsets 14 to 21, and \<^verbatim>\<open>getLeadingCommentRanges\<close> reports it for offset 13.
\<close>

definition commentFile :: source_text where
  "commentFile = \<lparr>fileName = ''i.d.ts'',
      fileText = ''interface I {'' @ [CHR 0x0A] @ ''// todo'' @ [CHR 0x0A] @ ''}''\<rparr>"

definition commentLibrary :: library where
  "commentLibrary =
     exampleLibrary\<lparr>getLeadingCommentRanges :=
       (\<lambda>t p. if p = 13 then Some [\<lparr>range_pos = 14, range_end = 21\<rparr>] else None)\<rparr>"

definition emptyMembers :: node where
  "emptyMembers =
     Node \<lparr>kind = SyntaxList, flags = 0, pos = 13, endPos = 13, getStart = 13,
           getText = [], idText = [], getSourceFile = Some commentFile\<rparr>
       [] (Some (token InterfaceDeclaration 0 commentFile 0 0 23)) None None None None"

definition commentedInterface :: node where
  "commentedInterface =
     Node \<lparr>kind = InterfaceDeclaration, flags = 0, pos = 0, endPos = 23, getStart = 0,
           getText = fileText commentFile, idText = [], getSourceFile = Some commentFile\<rparr>
       [token (OtherKind 0) 0 commentFile 0 0 9,
        token Identifier 0 commentFile 9 10 11,
        token (OtherKind 1) 0 commentFile 11 12 13,
        emptyMembers,
        token (OtherKind 2) 0 commentFile 13 22 23]
       None (Some (token Identifier 0 commentFile 9 10 11)) None None None"










text \<open>
  The members of \<^verbatim>\<open>class K { zeta(): void; alpha: string; constructor(); }\<close> and of
  \<^verbatim>\<open>class K { static a: number; b: number; }\<close>, each member a leaf.
\<close>

definition classFile :: source_text where
  "classFile = \<lparr>fileName = ''k.d.ts'',
      fileText = ''class K { zeta(): void; alpha: string; constructor(); }''\<rparr>"

definition member :: "syntax_kind \<Rightarrow> nat \<Rightarrow> source_text \<Rightarrow> nat \<Rightarrow> nat \<Rightarrow> node option \<Rightarrow> node" where
  "member k f sf p e nm =
     Node (attrs (token k f sf p (p + 1) e)) [] None nm None None None"

definition zetaMethod :: node where
  "zetaMethod = member MethodDeclaration 0 classFile 9 23 (Some (token Identifier 0 classFile 9 10 14))"

definition alphaField :: node where
  "alphaField = member PropertyDeclaration 0 classFile 23 38 (Some (token Identifier 0 classFile 23 24 29))"

definition theConstructor :: node where
  "theConstructor = member Constructor 0 classFile 38 53 None"

definition classMembers :: node where
  "classMembers =
     Node (attrs (token SyntaxList 0 classFile 9 10 53))
       [zetaMethod, alphaField, theConstructor]
       (Some (token ClassDeclaration 0 classFile 0 0 55)) None None None None"

definition staticFile :: source_text where
  "staticFile = \<lparr>fileName = ''s.d.ts'',
      fileText = ''class K { static a: number; b: number; }''\<rparr>"

definition staticField :: node where
  "staticField = member PropertyDeclaration NodeFlags_Static staticFile 9 27
      (Some (token Identifier 0 staticFile 16 17 18))"

definition plainField :: node where
  "plainField = member PropertyDeclaration 0 staticFile 27 38
      (Some (token Identifier 0 staticFile 27 28 29))"

definition staticMembers :: node where
  "staticMembers =
     Node (attrs (token SyntaxList 0 staticFile 9 10 38))
       [staticField, plainField]
       (Some (token ClassDeclaration 0 staticFile 0 0 40)) None None None None"

text \<open>
  The module \<^verbatim>\<open>api.d.ts\<close>: three lines, the classes \<^verbatim>\<open>Zed\<close> and \<^verbatim>\<open>Abc\<close> and between
  them the variable \<^verbatim>\<open>mid\<close>. A statement that is not the first begins with the line break
  before it.
\<close>

definition apiFile :: source_text where
  "apiFile = \<lparr>fileName = ''api.d.ts'',
      fileText = ''export declare class Zed {}'' @ [CHR 0x0A]
               @ ''export declare var mid: number;'' @ [CHR 0x0A]
               @ ''export declare class Abc {}''\<rparr>"

text \<open>The statement \<^verbatim>\<open>export declare class Xyz {}\<close> that starts at offset \<open>s\<close>.\<close>

definition emptyClass :: "source_text \<Rightarrow> nat \<Rightarrow> nat \<Rightarrow> node" where
  "emptyClass sf p s =
     Node (attrs (token ClassDeclaration 6 sf p s (s + 27)))
       [Node (attrs (token SyntaxList 0 sf p s (s + 14)))
          [token (OtherKind 20) 0 sf p s (s + 6),
           token (OtherKind 21) 0 sf (s + 6) (s + 7) (s + 14)]
          None None None None None,
        token (OtherKind 22) 0 sf (s + 14) (s + 15) (s + 20),
        token Identifier 0 sf (s + 20) (s + 21) (s + 24),
        token (OtherKind 23) 0 sf (s + 24) (s + 25) (s + 26),
        Node (attrs (token SyntaxList 0 sf (s + 26) (s + 26) (s + 26))) []
          (Some (token ClassDeclaration 6 sf p s (s + 27))) None None None None,
        token (OtherKind 24) 0 sf (s + 26) (s + 26) (s + 27)]
       None (Some (token Identifier 0 sf (s + 20) (s + 21) (s + 24))) None None None"

definition midNameAndType :: "node list" where
  "midNameAndType =
     [token Identifier 0 apiFile 46 47 50,
      token (OtherKind 25) 0 apiFile 50 50 51,
      token (OtherKind 26) 0 apiFile 51 52 58]"

definition midStatement :: node where
  "midStatement =
     Node (attrs (token (OtherKind 30) 6 apiFile 27 28 59))
       [Node (attrs (token SyntaxList 0 apiFile 27 28 42))
          [token (OtherKind 20) 0 apiFile 27 28 34,
           token (OtherKind 21) 0 apiFile 34 35 42]
          None None None None None,
        Node (attrs (token (OtherKind 31) 0 apiFile 42 43 58))
          [token (OtherKind 27) 0 apiFile 42 43 46,
           Node (attrs (token SyntaxList 0 apiFile 46 47 58))
             [Node (attrs (token (OtherKind 32) 0 apiFile 46 47 58)) midNameAndType
                None (Some (token Identifier 0 apiFile 46 47 50)) None None None]
             None None None None None]
          None None None None None,
        token (OtherKind 28) 0 apiFile 58 58 59]
       None None None None None"

text \<open>
  The declaration of the variable, as its symbol refers to it: its parent is the list of
  declarations, whose parent is the exported statement.
\<close>

definition midDeclaration :: node where
  "midDeclaration =
     Node (attrs (token (OtherKind 32) 0 apiFile 46 47 58)) midNameAndType
       (Some (Node (attrs (token (OtherKind 31) 0 apiFile 42 43 58)) []
                (Some midStatement) None None None None))
       (Some (token Identifier 0 apiFile 46 47 50)) None None None"

definition zedSymbol :: symbol where
  "zedSymbol = \<lparr>sym_name = ''Zed'', sym_flags = 32,
      valueDeclaration = Some (emptyClass apiFile 0 0),
      declarations = Some [emptyClass apiFile 0 0]\<rparr>"

definition midSymbol :: symbol where
  "midSymbol = \<lparr>sym_name = ''mid'', sym_flags = 2,
      valueDeclaration = Some midDeclaration, declarations = Some [midDeclaration]\<rparr>"

definition abcSymbol :: symbol where
  "abcSymbol = \<lparr>sym_name = ''Abc'', sym_flags = 32,
      valueDeclaration = None, declarations = Some [emptyClass apiFile 59 60]\<rparr>"

definition apiModule :: symbol where
  "apiModule = \<lparr>sym_name = ''api'', sym_flags = 512,
      valueDeclaration = None, declarations = None\<rparr>"

definition apiProgram :: "symbol list \<Rightarrow> program" where
  "apiProgram exports =
     \<lparr>getSourceFiles = [\<lparr>sf_fileName = ''lib.d.ts'', sf_symbol = None\<rparr>,
                         \<lparr>sf_fileName = ''api.d.ts'', sf_symbol = Some apiModule\<rparr>],
      getExportsOfModule = (\<lambda>ms. if sym_name ms = ''api'' then Some exports else None),
      getAliasedSymbol = (\<lambda>s. s)\<rparr>"

definition apiOutput :: string where
  "apiOutput = ''export declare class Abc {}'' @ [CHR 0x0A, CHR 0x0A]
             @ ''export declare var mid: number;'' @ [CHR 0x0A, CHR 0x0A]
             @ ''export declare class Zed {}'' @ [CHR 0x0A]"


text \<open>
  A module \<^verbatim>\<open>index.d.ts\<close> with three exports: the class \<^verbatim>\<open>Foo\<close> itself, the alias
  \<^verbatim>\<open>Ext\<close> of a symbol without declarations and the alias \<^verbatim>\<open>Foo\<close> of the class.
\<close>

definition reexportProgram :: program where
  "reexportProgram =
     aliasProgram\<lparr>getExportsOfModule :=
       (\<lambda>ms. if sym_name ms = ''index''
             then Some [fooSymbol, aliasSymbol ''Ext'', aliasSymbol ''Foo''] else None)\<rparr>"

text \<open>
  The statement \<^verbatim>\<open>export declare class N {}\<close> that starts at offset \<open>s\<close>, for a name
  \<^verbatim>\<open>N\<close> of \<open>k\<close> characters.
\<close>

definition namedClass :: "source_text \<Rightarrow> nat \<Rightarrow> nat \<Rightarrow> nat \<Rightarrow> node" where
  "namedClass sf p s k =
     Node (attrs (token ClassDeclaration 6 sf p s (s + 24 + k)))
       [Node (attrs (token SyntaxList 0 sf p s (s + 14)))
          [token (OtherKind 20) 0 sf p s (s + 6),
           token (OtherKind 21) 0 sf (s + 6) (s + 7) (s + 14)]
          None None None None None,
        token (OtherKind 22) 0 sf (s + 14) (s + 15) (s + 20),
        token Identifier 0 sf (s + 20) (s + 21) (s + 21 + k),
        token (OtherKind 23) 0 sf (s + 21 + k) (s + 22 + k) (s + 23 + k),
        Node (attrs (token SyntaxList 0 sf (s + 23 + k) (s + 23 + k) (s + 23 + k))) []
          (Some (token ClassDeclaration 6 sf p s (s + 24 + k))) None None None None,
        token (OtherKind 24) 0 sf (s + 23 + k) (s + 23 + k) (s + 24 + k)]
       None (Some (token Identifier 0 sf (s + 20) (s + 21) (s + 21 + k))) None None None"

text \<open>
  The two writings of the accented letter: one character, and the letter with the
  combining accent.
\<close>

definition composed :: string where
  "composed = [CHR 0xC3, CHR 0xA9]"

definition decomposed :: string where
  "decomposed = [CHR 0x65, CHR 0xCC, CHR 0x81]"

text \<open>
  The module \<^verbatim>\<open>e.d.ts\<close> that declares the class \<open>a\<close> and then the class \<open>b\<close>, each on a
  line of its own, and its exported symbols in the order of the declarations.
\<close>

definition accentFile :: "string \<Rightarrow> string \<Rightarrow> source_text" where
  "accentFile a b = \<lparr>fileName = ''e.d.ts'',
      fileText = ''export declare class '' @ a @ '' {}'' @ [CHR 0x0A]
               @ ''export declare class '' @ b @ '' {}''\<rparr>"

definition accentExports :: "string \<Rightarrow> string \<Rightarrow> symbol list" where
  "accentExports a b =
     [\<lparr>sym_name = a, sym_flags = 32,
       valueDeclaration = Some (namedClass (accentFile a b) 0 0 (length a)),
       declarations = None\<rparr>,
      \<lparr>sym_name = b, sym_flags = 32,
       valueDeclaration =
         Some (namedClass (accentFile a b) (24 + length a) (25 + length a) (length b)),
       declarations = None\<rparr>]"

definition moduleProgram :: "string \<Rightarrow> symbol list \<Rightarrow> program" where
  "moduleProgram file exports =
     \<lparr>getSourceFiles = [\<lparr>sf_fileName = file, sf_symbol = Some apiModule\<rparr>],
      getExportsOfModule = (\<lambda>ms. if sym_name ms = ''api'' then Some exports else None),
      getAliasedSymbol = (\<lambda>s. s)\<rparr>"




section \<open>Properties\<close>

subsection \<open>Unfolding the examples\<close>


lemmas eval_defs = getSanitizedText.simps checkQualifier_def getFirstQualifier_def
  createErrorMessage_def renderOrder_def parentKind_def leafText_def commentTail_def
  substring_def NodeFlags_Private_def Let_def

lemmas class_defs = classFile_def member_def zetaMethod_def alphaField_def theConstructor_def
  classMembers_def staticFile_def staticField_def plainField_def staticMembers_def token_def
  exampleLibrary_def noOptions_def

lemmas sort_defs = array_sort_def memberCompare_def compareFunction_def js_or_def nameText_def
  NodeFlags_Static_def

lemma token_sel:
  "kind (attrs (token k f sf p s e)) = k"
  "flags (attrs (token k f sf p s e)) = f"
  "pos (attrs (token k f sf p s e)) = p"
  "endPos (attrs (token k f sf p s e)) = e"
  "getStart (attrs (token k f sf p s e)) = s"
  "getSourceFile (attrs (token k f sf p s e)) = Some sf"
  "getChildren (token k f sf p s e) = []"
  "parent (token k f sf p s e) = None"
  "name (token k f sf p s e) = None"
  "expression (token k f sf p s e) = None"
  "typeName (token k f sf p s e) = None"
  "left (token k f sf p s e) = None"
  by (simp_all add: token_def)

lemmas api_defs = apiFile_def emptyClass_def midNameAndType_def midStatement_def
  midDeclaration_def zedSymbol_def midSymbol_def abcSymbol_def apiModule_def apiProgram_def
  apiOutput_def token_sel exampleLibrary_def noOptions_def

subsection \<open>Concatenation with exceptions\<close>

lemma map_join_append:
  "map_join (xs @ ys) =
     (case map_join xs of Inl e \<Rightarrow> Inl e
      | Inr s \<Rightarrow> (case map_join ys of Inl e \<Rightarrow> Inl e | Inr t \<Rightarrow> Inr (s @ t)))"
  by (induction xs rule: map_join.induct) (auto split: sum.splits)

subsection \<open>Private nodes\<close>

text \<open>
  Claim C5. A node flagged private is sanitized to the empty string, whatever is below it:
  its children are not visited, so no leaf of the subtree adds a character, and in the
  concatenation that a parent builds the node counts for nothing.
\<close>

theorem private_node_is_pruned:
  assumes "flags (attrs n) AND NodeFlags_Private \<noteq> 0"
  shows "getSanitizedText L options n = Inr []
    \<and> map_join (map (getSanitizedText L options) (xs @ n # ys))
        = map_join (map (getSanitizedText L options) (xs @ ys))"
proof -
  have n: "getSanitizedText L options n = Inr []"
    using assms by (simp add: getSanitizedText.simps)
  then show ?thesis
    by (simp add: map_join_append split: sum.splits)
qed

text \<open>
  The private member \<^verbatim>\<open>private x: ns.T;\<close> has five children, one of them a reference
  with the qualifier \<^verbatim>\<open>ns\<close> that no option allows; it is sanitized to the empty string.
\<close>

theorem private_node_is_pruned_witness:
  "flags (attrs privateMember) AND NodeFlags_Private \<noteq> 0
   \<and> getSanitizedText exampleLibrary noOptions privateMember = Inr []
   \<and> getFirstQualifier (getChildren privateMember ! 3)
       = Inr (Some (token Identifier 0 privateFile 20 21 23))"
proof -
  have h: "flags (attrs privateMember) AND NodeFlags_Private \<noteq> 0"
    by (simp add: privateMember_def NodeFlags_Private_def)
  have q: "getFirstQualifier (getChildren privateMember ! 3)
             = Inr (Some (token Identifier 0 privateFile 20 21 23))"
    by (simp add: privateMember_def getFirstQualifier_def token_def)
  show ?thesis
    using h q private_node_is_pruned [OF h, of exampleLibrary noOptions "[]" "[]"] by simp
qed

subsection \<open>Resolution of aliases\<close>

lemma map_throw_Inl:
  "x \<in> set xs \<Longrightarrow> f x = Inl e \<Longrightarrow> \<exists>y\<in>set xs. \<exists>e'. f y = Inl e' \<and> map_throw f xs = Inl e'"
  by (induction xs) (auto split: sum.splits)

lemma resolveSymbol_Inl:
  "resolveSymbol P s = Inl e \<Longrightarrow> \<exists>a b. e = AliasRenamed a b"
  by (auto simp: resolveSymbol_def Let_def split: if_splits)

lemma map_throw_find:
  assumes "\<And>x. f x = (if bad x then Inl (err x) else Inr (g x))"
  shows "map_throw f xs =
     (case find bad xs of Some x \<Rightarrow> Inl (err x) | None \<Rightarrow> Inr (map g xs))"
  by (induction xs) (simp_all add: assms split: option.splits)

lemma resolveSymbol_cases:
  "resolveSymbol P s =
     (if sym_flags s AND SymbolFlags_Alias \<noteq> 0
         \<and> (valueDeclaration (getAliasedSymbol P s) \<noteq> None
              \<or> declarations (getAliasedSymbol P s) \<noteq> None)
         \<and> sym_name (getAliasedSymbol P s) \<noteq> sym_name s
      then Inl (AliasRenamed (sym_name (getAliasedSymbol P s)) (sym_name s))
      else Inr (if sym_flags s AND SymbolFlags_Alias \<noteq> 0
                   \<and> (valueDeclaration (getAliasedSymbol P s) \<noteq> None
                        \<or> declarations (getAliasedSymbol P s) \<noteq> None)
                then getAliasedSymbol P s else s))"
  by (auto simp: resolveSymbol_def Let_def)

text \<open>
  Claim C2. What \<open>getResolvedSymbols\<close> returns for the raw exported symbols of a module.
  When one of them is an alias whose target has a declaration and another name, the
  function throws \<open>AliasRenamed\<close> for the first such alias, and so does
  \<open>emitResolvedDeclarations\<close> for a program whose entry file is that module. Otherwise it
  returns the list in which every alias whose target has a declaration (and so the same
  name) is replaced by its target, and every other symbol is kept: a symbol that is not an
  alias, and an alias whose target has neither \<^verbatim>\<open>valueDeclaration\<close> nor
  \<^verbatim>\<open>declarations\<close>. The resolved list is what the loop of \<open>emitResolvedDeclarations\<close>
  sorts and prints.
\<close>

theorem resolved_symbol_cases:
  "getResolvedSymbols P sourceFile =
     (case find (\<lambda>s. sym_flags s AND SymbolFlags_Alias \<noteq> 0
                     \<and> (valueDeclaration (getAliasedSymbol P s) \<noteq> None
                          \<or> declarations (getAliasedSymbol P s) \<noteq> None)
                     \<and> sym_name (getAliasedSymbol P s) \<noteq> sym_name s)
             (rawSymbols P sourceFile) of
        Some s \<Rightarrow> Inl (AliasRenamed (sym_name (getAliasedSymbol P s)) (sym_name s))
      | None \<Rightarrow>
          Inr (map (\<lambda>s. if sym_flags s AND SymbolFlags_Alias \<noteq> 0
                            \<and> (valueDeclaration (getAliasedSymbol P s) \<noteq> None
                                 \<or> declarations (getAliasedSymbol P s) \<noteq> None)
                         then getAliasedSymbol P s else s)
                 (rawSymbols P sourceFile)))
 \<and> (filter (\<lambda>sf. sf_fileName sf = entry) (getSourceFiles P) = sourceFile # rest
      \<longrightarrow> emitResolvedDeclarations P L entry options =
           (case getResolvedSymbols P sourceFile of
              Inl e \<Rightarrow> Inl e
            | Inr resolvedSymbols \<Rightarrow>
                emitLoop L options (array_sort (symbolCompareFunction L) resolvedSymbols)
                  \<lparr>out = [], warnings = []\<rparr>))"
proof (intro conjI impI)
  have "getResolvedSymbols P sourceFile = map_throw (resolveSymbol P) (rawSymbols P sourceFile)"
    by (simp add: getResolvedSymbols_def rawSymbols_def)
  also have "\<dots> = (case find (\<lambda>s. sym_flags s AND SymbolFlags_Alias \<noteq> 0
                     \<and> (valueDeclaration (getAliasedSymbol P s) \<noteq> None
                          \<or> declarations (getAliasedSymbol P s) \<noteq> None)
                     \<and> sym_name (getAliasedSymbol P s) \<noteq> sym_name s)
             (rawSymbols P sourceFile) of
        Some s \<Rightarrow> Inl (AliasRenamed (sym_name (getAliasedSymbol P s)) (sym_name s))
      | None \<Rightarrow>
          Inr (map (\<lambda>s. if sym_flags s AND SymbolFlags_Alias \<noteq> 0
                            \<and> (valueDeclaration (getAliasedSymbol P s) \<noteq> None
                                 \<or> declarations (getAliasedSymbol P s) \<noteq> None)
                         then getAliasedSymbol P s else s)
                 (rawSymbols P sourceFile)))"
    by (rule map_throw_find) (rule resolveSymbol_cases)
  finally show "getResolvedSymbols P sourceFile = (case find (\<lambda>s. sym_flags s AND SymbolFlags_Alias \<noteq> 0
                     \<and> (valueDeclaration (getAliasedSymbol P s) \<noteq> None
                          \<or> declarations (getAliasedSymbol P s) \<noteq> None)
                     \<and> sym_name (getAliasedSymbol P s) \<noteq> sym_name s)
             (rawSymbols P sourceFile) of
        Some s \<Rightarrow> Inl (AliasRenamed (sym_name (getAliasedSymbol P s)) (sym_name s))
      | None \<Rightarrow>
          Inr (map (\<lambda>s. if sym_flags s AND SymbolFlags_Alias \<noteq> 0
                            \<and> (valueDeclaration (getAliasedSymbol P s) \<noteq> None
                                 \<or> declarations (getAliasedSymbol P s) \<noteq> None)
                         then getAliasedSymbol P s else s)
                 (rawSymbols P sourceFile)))" .
next
  assume "filter (\<lambda>sf. sf_fileName sf = entry) (getSourceFiles P) = sourceFile # rest"
  then show "emitResolvedDeclarations P L entry options =
           (case getResolvedSymbols P sourceFile of
              Inl e \<Rightarrow> Inl e
            | Inr resolvedSymbols \<Rightarrow>
                emitLoop L options (array_sort (symbolCompareFunction L) resolvedSymbols)
                  \<lparr>out = [], warnings = []\<rparr>)"
    by (simp add: emitResolvedDeclarations_def)
qed

lemma alias_flags:
  "sym_flags (aliasSymbol nm) AND SymbolFlags_Alias \<noteq> 0"
  "sym_flags fooSymbol AND SymbolFlags_Alias = 0"
  "sym_name (aliasSymbol nm) = nm" "sym_name fooSymbol = ''Foo''"
  "valueDeclaration fooSymbol \<noteq> None"
  "valueDeclaration unknownSymbol = None" "declarations unknownSymbol = None"
  by (simp_all add: aliasSymbol_def fooSymbol_def unknownSymbol_def SymbolFlags_Alias_def)

text \<open>
  The module \<^verbatim>\<open>index.d.ts\<close> that exports the class \<^verbatim>\<open>Foo\<close>, the alias \<^verbatim>\<open>Ext\<close> of a
  symbol without declarations and the alias \<^verbatim>\<open>Foo\<close> of the class is resolved to the
  class, the alias \<^verbatim>\<open>Ext\<close> and the class. The module that exports the aliases \<^verbatim>\<open>Foo\<close>
  and \<^verbatim>\<open>Bar\<close> of the class is refused for \<^verbatim>\<open>Bar\<close>, and so is the run on it.
\<close>

theorem resolved_symbol_cases_witness:
  "rawSymbols reexportProgram \<lparr>sf_fileName = ''index.d.ts'', sf_symbol = Some indexSymbol\<rparr>
     = [fooSymbol, aliasSymbol ''Ext'', aliasSymbol ''Foo'']
 \<and> getResolvedSymbols reexportProgram \<lparr>sf_fileName = ''index.d.ts'', sf_symbol = Some indexSymbol\<rparr>
     = Inr [fooSymbol, aliasSymbol ''Ext'', fooSymbol]
 \<and> rawSymbols aliasProgram \<lparr>sf_fileName = ''index.d.ts'', sf_symbol = Some indexSymbol\<rparr>
     = [aliasSymbol ''Foo'', aliasSymbol ''Bar'']
 \<and> getResolvedSymbols aliasProgram \<lparr>sf_fileName = ''index.d.ts'', sf_symbol = Some indexSymbol\<rparr>
     = Inl (AliasRenamed ''Foo'' ''Bar'')
 \<and> emitResolvedDeclarations aliasProgram exampleLibrary ''index.d.ts'' noOptions
     = Inl (AliasRenamed ''Foo'' ''Bar'')"
proof -
  let ?sf = "\<lparr>sf_fileName = ''index.d.ts'', sf_symbol = Some indexSymbol\<rparr>"
  have r1: "rawSymbols reexportProgram ?sf = [fooSymbol, aliasSymbol ''Ext'', aliasSymbol ''Foo'']"
    by (simp add: rawSymbols_def reexportProgram_def aliasProgram_def indexSymbol_def)
  have r2: "rawSymbols aliasProgram ?sf = [aliasSymbol ''Foo'', aliasSymbol ''Bar'']"
    by (simp add: rawSymbols_def aliasProgram_def indexSymbol_def)
  have t1: "getAliasedSymbol reexportProgram s = (if sym_name s = ''Ext'' then unknownSymbol else fooSymbol)" for s
    by (simp add: reexportProgram_def aliasProgram_def)
  have t2: "getAliasedSymbol aliasProgram s = (if sym_name s = ''Ext'' then unknownSymbol else fooSymbol)" for s
    by (simp add: aliasProgram_def)
  have c1: "getResolvedSymbols reexportProgram ?sf = Inr [fooSymbol, aliasSymbol ''Ext'', fooSymbol]"
    unfolding resolved_symbol_cases [of reexportProgram ?sf, THEN conjunct1] r1
    by (simp add: t1 alias_flags)
  have c2: "getResolvedSymbols aliasProgram ?sf = Inl (AliasRenamed ''Foo'' ''Bar'')"
    unfolding resolved_symbol_cases [of aliasProgram ?sf, THEN conjunct1] r2
    by (simp add: t2 alias_flags)
  have f: "filter (\<lambda>sf. sf_fileName sf = ''index.d.ts'') (getSourceFiles aliasProgram) = ?sf # []"
    by (simp add: aliasProgram_def)
  have c3: "emitResolvedDeclarations aliasProgram exampleLibrary ''index.d.ts'' noOptions
     = Inl (AliasRenamed ''Foo'' ''Bar'')"
    unfolding resolved_symbol_cases [of aliasProgram ?sf "''index.d.ts''" "[]" exampleLibrary noOptions,
        THEN conjunct2, THEN mp, OF f] c2
    by simp
  show ?thesis using r1 c1 r2 c2 c3 by (intro conjI)
qed

subsection \<open>The entry file\<close>



subsection \<open>The sanitizer below a node that is not private\<close>

lemma set_insort_by: "set (insort_by cmp y ys) = insert y (set ys)"
  by (induction ys) auto



lemma getSanitizedText_public:
  "flags (attrs n) AND NodeFlags_Private = 0 \<Longrightarrow>
   getSanitizedText L options n =
     (case checkQualifier L options n of
        Some e \<Rightarrow> Inl e
      | None \<Rightarrow>
          if getChildren n \<noteq> []
          then map_join (map (getSanitizedText L options) (renderOrder n))
          else leafText L n)"
  by (subst getSanitizedText.simps) simp






subsection \<open>Leaves and their leading comments\<close>

text \<open>
  A leaf that is not private and not a reference is printed from the furthest end of its
  leading comments, or from its own \<^verbatim>\<open>pos\<close>, to its \<^verbatim>\<open>end\<close>, as long as the
  comments end inside the leaf.
\<close>

lemma commentTail_Max:
  "commentTail ranges p
     = Max (insert p (range_end ` set (case ranges of None \<Rightarrow> [] | Some rs \<Rightarrow> rs)))"
proof -
  have "fold (\<lambda>r tail. if range_end r > tail then range_end r else tail) rs p
          = Max (insert p (range_end ` set rs))" for rs :: "comment_range list"
  proof (induction rs arbitrary: p)
    case Nil
    show ?case by simp
  next
    case (Cons r rs)
    have step: "(if range_end r > p then range_end r else p) = max p (range_end r)"
      by (simp add: max_def)
    have "Max (insert (max p (range_end r)) (range_end ` set rs))
            = Max (insert p (insert (range_end r) (range_end ` set rs)))"
    proof (cases "rs = []")
      case True
      then show ?thesis by (simp add: max.commute)
    next
      case False
      then have "range_end ` set rs \<noteq> {}" by simp
      then show ?thesis
        by (simp add: max.assoc)
    qed
    with Cons.IH [of "max p (range_end r)"] step show ?case
      by simp
  qed
  then show ?thesis
    by (simp add: commentTail_def)
qed

lemma leaf_text:
  assumes "flags (attrs n) AND NodeFlags_Private = 0"
    and "getFirstQualifier n = Inr None"
    and "getChildren n = []"
    and "getSourceFile (attrs n) = Some sf"
    and "tail = commentTail (getLeadingCommentRanges L (fileText sf) (pos (attrs n))) (pos (attrs n))"
    and "tail \<le> endPos (attrs n)" and "endPos (attrs n) \<le> length (fileText sf)"
  shows "getSanitizedText L options n
           = Inr (take (endPos (attrs n) - tail) (drop tail (fileText sf)))"
  using assms
  by (simp add: getSanitizedText_public checkQualifier_def leafText_def substring_def
      Let_def min_def max_def)

text \<open>
  Claim C6, at a leaf of width zero. The empty list of members of
  \<^verbatim>\<open>interface I {\<close> \<^verbatim>\<open>// todo\<close> \<^verbatim>\<open>}\<close> is a leaf with \<^verbatim>\<open>pos = end = 13\<close>. The
  comment reported for offset 13 ends at 21, behind the end of the leaf, and
  \<^verbatim>\<open>substring(21, 13)\<close> swaps its arguments: the leaf is printed as the line break and
  the comment, and the interface is printed with its comment.
\<close>

theorem comment_after_empty_list_is_printed:
  "getChildren emptyMembers = []
 \<and> pos (attrs emptyMembers) = 13 \<and> endPos (attrs emptyMembers) = 13
 \<and> getLeadingCommentRanges commentLibrary (fileText commentFile) 13
      = Some [\<lparr>range_pos = 14, range_end = 21\<rparr>]
 \<and> substring (fileText commentFile) 14 21 = ''// todo''
 \<and> getSanitizedText commentLibrary noOptions emptyMembers = Inr (CHR 0x0A # ''// todo'')
 \<and> getSanitizedText commentLibrary noOptions commentedInterface
      = Inr (''interface I {'' @ [CHR 0x0A] @ ''// todo'' @ [CHR 0x0A] @ ''}'')"
  by (simp add: getSanitizedText.simps emptyMembers_def commentedInterface_def token_def
      checkQualifier_def getFirstQualifier_def renderOrder_def parentKind_def NodeFlags_Private_def
      leafText_def commentLibrary_def exampleLibrary_def commentTail_def commentFile_def
      substring_def Let_def)

subsection \<open>Qualifiers\<close>


















subsection \<open>The order of the members\<close>

lemma memberCompare_le:
  assumes "memberDeclarationOrder (kind (attrs a)) \<noteq> None"
    and "memberDeclarationOrder (kind (attrs b)) \<noteq> None"
  shows "(memberCompare a b \<le> 0) = (memberKey a \<le> memberKey b)"
  using assms
  by (auto simp: memberCompare_def js_or_def compareFunction_def memberKey_def
      less_eq_prod_def split: option.splits)

lemma insort_by_memberKey:
  assumes "memberDeclarationOrder (kind (attrs x)) \<noteq> None"
    and "\<forall>y\<in>set ys. memberDeclarationOrder (kind (attrs y)) \<noteq> None"
  shows "insort_by memberCompare x ys = insort_key memberKey x ys"
  using assms by (induction ys) (simp_all add: memberCompare_le)

lemma array_sort_memberKey:
  assumes "\<forall>y\<in>set ys. memberDeclarationOrder (kind (attrs y)) \<noteq> None"
  shows "array_sort memberCompare ys = sort_key memberKey ys"
  using assms
proof (induction ys)
  case Nil
  show ?case by (simp add: array_sort_def)
next
  case (Cons y ys)
  then have "array_sort memberCompare ys = sort_key memberKey ys" by simp
  moreover have "array_sort memberCompare (y # ys) = insort_by memberCompare y (array_sort memberCompare ys)"
    by (simp add: array_sort_def)
  ultimately show ?case
    using Cons.prems by (simp add: insort_by_memberKey)
qed

text \<open>
  Claim C1, amended. Let \<open>n\<close> be the syntax list of the members of a class or an interface,
  every child of a kind that \<open>memberDeclarationOrder\<close> ranks. The children are rendered in
  the order of the stable sort by \<open>memberKey\<close>: members that are not static before static
  members, then by rank, then by the text of the name; the order is sorted by the key, a
  permutation of the children, and members of equal key keep their order.
\<close>

theorem members_are_sorted:
  assumes "flags (attrs n) AND NodeFlags_Private = 0"
    and "kind (attrs n) = SyntaxList"
    and "parentKind n = Some ClassDeclaration \<or> parentKind n = Some InterfaceDeclaration"
    and "\<forall>c\<in>set (getChildren n). memberDeclarationOrder (kind (attrs c)) \<noteq> None"
  shows "(getChildren n \<noteq> []
           \<longrightarrow> getSanitizedText L options n
                 = map_join (map (getSanitizedText L options) (renderOrder n)))
       \<and> sorted (map memberKey (renderOrder n))
       \<and> mset (renderOrder n) = mset (getChildren n)
       \<and> (\<forall>k. filter (\<lambda>c. memberKey c = k) (renderOrder n)
                = filter (\<lambda>c. memberKey c = k) (getChildren n))"
proof -
  have "checkQualifier L options n = None"
    using assms(2) by (simp add: checkQualifier_def getFirstQualifier_def)
  then have res: "getChildren n \<noteq> []
           \<longrightarrow> getSanitizedText L options n
                 = map_join (map (getSanitizedText L options) (renderOrder n))"
    using assms(1) by (simp add: getSanitizedText_public)
  have "renderOrder n = array_sort memberCompare (getChildren n)"
    using assms(2,3,4) by (auto simp: renderOrder_def list_all_iff)
  then have order: "renderOrder n = sort_key memberKey (getChildren n)"
    using assms(4) by (simp add: array_sort_memberKey)
  have stable: "filter (\<lambda>c. memberKey c = k) (sort_key memberKey (getChildren n))
                = filter (\<lambda>c. memberKey c = k) (getChildren n)" for k
    by (rule sort_key_stable)
  have "sorted (map memberKey (renderOrder n))"
    and "mset (renderOrder n) = mset (getChildren n)"
    and "\<forall>k. filter (\<lambda>c. memberKey c = k) (renderOrder n)
                = filter (\<lambda>c. memberKey c = k) (getChildren n)"
    using stable by (simp_all add: order)
  with res show ?thesis
    by (intro conjI)
qed

text \<open>
  The claim as it was stated puts static members first. In
  \<^verbatim>\<open>class K { static a: number; b: number; }\<close> both members are fields; the static one is
  declared first and rendered last.
\<close>

theorem static_member_after_instance_member:
  "flags (attrs staticMembers) AND NodeFlags_Private = 0
 \<and> kind (attrs staticMembers) = SyntaxList
 \<and> parentKind staticMembers = Some ClassDeclaration
 \<and> getChildren staticMembers = [staticField, plainField]
 \<and> memberDeclarationOrder (kind (attrs staticField)) = Some 0
 \<and> memberDeclarationOrder (kind (attrs plainField)) = Some 0
 \<and> flags (attrs staticField) AND NodeFlags_Static \<noteq> 0
 \<and> flags (attrs plainField) AND NodeFlags_Static = 0
 \<and> renderOrder staticMembers = [plainField, staticField]
 \<and> getSanitizedText exampleLibrary noOptions staticMembers
      = Inr '' b: number; static a: number;''"
  by (simp add: class_defs eval_defs sort_defs)

text \<open>
  \<^verbatim>\<open>class K { zeta(): void; alpha: string; constructor(); }\<close> is rendered field,
  constructor, method.
\<close>

theorem members_are_sorted_witness:
  "flags (attrs classMembers) AND NodeFlags_Private = 0
 \<and> kind (attrs classMembers) = SyntaxList
 \<and> parentKind classMembers = Some ClassDeclaration
 \<and> list_all (\<lambda>c. memberDeclarationOrder (kind (attrs c)) \<noteq> None) (getChildren classMembers)
 \<and> getChildren classMembers = [zetaMethod, alphaField, theConstructor]
 \<and> renderOrder classMembers = [alphaField, theConstructor, zetaMethod]
 \<and> getSanitizedText exampleLibrary noOptions classMembers
      = Inr '' alpha: string; constructor(); zeta(): void;''"
proof -
  have pub: "flags (attrs classMembers) AND NodeFlags_Private = 0"
    by (simp add: class_defs NodeFlags_Private_def)
  have k: "kind (attrs classMembers) = SyntaxList"
    by (simp add: class_defs)
  have pk: "parentKind classMembers = Some ClassDeclaration"
    by (simp add: class_defs parentKind_def)
  have cs: "getChildren classMembers = [zetaMethod, alphaField, theConstructor]"
    by (simp add: classMembers_def)
  have ranked: "\<forall>c\<in>set (getChildren classMembers). memberDeclarationOrder (kind (attrs c)) \<noteq> None"
    by (simp add: cs) (simp add: class_defs)
  have ne: "getChildren classMembers \<noteq> []"
    by (simp add: cs)
  have pk': "parentKind classMembers = Some ClassDeclaration
      \<or> parentKind classMembers = Some InterfaceDeclaration"
    using pk by simp
  note srt = members_are_sorted [OF pub k pk' ranked, of exampleLibrary noOptions,
      THEN conjunct1, THEN mp, OF ne]
  have order: "renderOrder classMembers = [alphaField, theConstructor, zetaMethod]"
    by (simp add: class_defs renderOrder_def parentKind_def sort_defs)
  have "getSanitizedText exampleLibrary noOptions classMembers
      = map_join (map (getSanitizedText exampleLibrary noOptions) (renderOrder classMembers))"
    by (rule srt)
  also have "\<dots> = Inr '' alpha: string; constructor(); zeta(): void;''"
    unfolding order by (simp add: class_defs eval_defs)
  finally have c: "getSanitizedText exampleLibrary noOptions classMembers
      = Inr '' alpha: string; constructor(); zeta(): void;''" .
  have ranked': "list_all (\<lambda>c. memberDeclarationOrder (kind (attrs c)) \<noteq> None)
      (getChildren classMembers)"
    using ranked by (simp add: list_all_iff)
  show ?thesis using pub k pk ranked' cs order c by (intro conjI)
qed

subsection \<open>The assembled output\<close>

lemma split_not_Nil: "split sep s \<noteq> []"
  by (induction s) (auto split: list.splits)





lemma fold_appendEntry:
  "fold (\<lambda>t acc. appendEntry acc t) ts acc =
     (if ts = [] then acc
      else (if acc \<noteq> [] then acc @ [CHR 0x0A] else acc)
           @ join [CHR 0x0A] (map (\<lambda>t. stripEmptyLines t @ [CHR 0x0A]) ts))"
proof (induction ts arbitrary: acc)
  case Nil
  show ?case by simp
next
  case (Cons t ts)
  have ne: "appendEntry acc t \<noteq> []" by (simp add: appendEntry_def)
  show ?case
  proof (cases ts)
    case Nil
    then show ?thesis by (simp add: appendEntry_def)
  next
    case (Cons u us)
    with Cons.IH [of "appendEntry acc t"] ne show ?thesis
      by (simp add: appendEntry_def)
  qed
qed

lemma map_throw_Cons_Inr:
  "map_throw f (x # xs) = (case f x of Inl e \<Rightarrow> Inl e | Inr y \<Rightarrow> map_sum id ((#) y) (map_throw f xs))"
  by (simp split: sum.splits)

lemma emitLoop_entries:
  "map_sum id out (emitLoop L options ss st) =
     map_sum id (\<lambda>ts. fold (\<lambda>t acc. appendEntry acc t) ts (out st))
       (map_throw (getSanitizedText L options) (map snd (entryNodes options ss)))"
proof (induction ss arbitrary: st)
  case Nil
  show ?case by simp
next
  case (Cons s ss)
  show ?case
  proof (cases "case stripExportPattern options of None \<Rightarrow> False | Some pattern \<Rightarrow> pattern (sym_name s)")
    case True
    then show ?thesis using Cons.IH by simp
  next
    case False
    show ?thesis
    proof (cases "symbolDeclaration s")
      case None
      with False show ?thesis using Cons.IH [of "st\<lparr>warnings := warnings st @ [NoDeclaration (sym_name s)]\<rparr>"] by simp
    next
      case (Some d)
      show ?thesis
      proof (cases "flags (attrs (exportStatement d)) AND NodeFlags_Export \<noteq> 0")
        case exported: True
        show ?thesis
        proof (cases "getSanitizedText L options (exportStatement d)")
          case (Inl e)
          with False Some exported show ?thesis by (simp add: Let_def)
        next
          case (Inr t)
          with False Some exported Cons.IH [of "st\<lparr>out := appendEntry (out st) t\<rparr>"] show ?thesis
            by (cases "map_throw (getSanitizedText L options) (map snd (entryNodes options ss))")
               (simp_all add: Let_def)
        qed
      next
        case notExported: False
        with False Some Cons.IH [of "st\<lparr>warnings := warnings st @ [NoExportDeclaration (sym_name s)]\<rparr>"]
        show ?thesis by (simp add: Let_def)
      qed
    qed
  qed
qed

text \<open>The module \<^verbatim>\<open>api.d.ts\<close>, step by step.\<close>

lemma api_names:
  "sym_name zedSymbol = ''Zed''" "sym_name midSymbol = ''mid''" "sym_name abcSymbol = ''Abc''"
  "sym_name apiModule = ''api''"
  "sym_flags zedSymbol = 32" "sym_flags midSymbol = 2" "sym_flags abcSymbol = 32"
  by (simp_all add: zedSymbol_def midSymbol_def abcSymbol_def apiModule_def)

lemma sorted_api:
  "array_sort (symbolCompareFunction exampleLibrary) [zedSymbol, midSymbol, abcSymbol]
     = [abcSymbol, midSymbol, zedSymbol]"
  by (simp add: array_sort_def symbolCompareFunction_def exampleLibrary_def englishCompare_def
      letterCompare_def foldCase_def js_or_def compareFunction_def api_names)

lemma nodes_api:
  "map snd (entryNodes noOptions [abcSymbol, midSymbol, zedSymbol])
     = [emptyClass apiFile 59 60, midStatement, emptyClass apiFile 0 0]"
  by (simp add: noOptions_def symbolDeclaration_def abcSymbol_def zedSymbol_def midSymbol_def
      midDeclaration_def emptyClass_def midStatement_def token_sel NodeFlags_Export_def Let_def)

lemma texts_api:
  "map_throw (getSanitizedText exampleLibrary noOptions)
     [emptyClass apiFile 59 60, midStatement, emptyClass apiFile 0 0]
   = Inr [CHR 0x0A # ''export declare class Abc {}'',
          CHR 0x0A # ''export declare var mid: number;'', ''export declare class Zed {}'']"
  by (simp add: api_defs eval_defs)



subsection \<open>The order of the entries\<close>

lemma mset_insort_by: "mset (insort_by cmp x ys) = add_mset x (mset ys)"
  by (induction ys) auto

lemma mset_array_sort: "mset (array_sort cmp xs) = mset xs"
  unfolding array_sort_def by (induction xs) (simp_all add: mset_insort_by)

lemma array_sort_Cons: "array_sort cmp (x # xs) = insort_by cmp x (array_sort cmp xs)"
  by (simp add: array_sort_def)

lemma sorted_wrt_unique:
  assumes asym: "\<And>a b. R a b \<Longrightarrow> \<not> R b a"
  shows "sorted_wrt R ys \<Longrightarrow> sorted_wrt R zs \<Longrightarrow> mset ys = mset zs \<Longrightarrow> ys = zs"
proof (induction ys arbitrary: zs)
  case Nil
  then show ?case by simp
next
  case (Cons y ys)
  from Cons.prems(3) obtain z zs' where zs: "zs = z # zs'"
    by (cases zs) auto
  have "y = z"
  proof (rule ccontr)
    assume ne: "y \<noteq> z"
    from Cons.prems(3) have "y \<in> set zs" by (metis list.set_intros(1) mset_eq_setD)
    with ne zs have "y \<in> set zs'" by simp
    with Cons.prems(2) zs have "R z y" by simp
    from Cons.prems(3) zs have "z \<in> set (y # ys)" by (metis list.set_intros(1) mset_eq_setD)
    with ne have "z \<in> set ys" by simp
    with Cons.prems(1) have "R y z" by simp
    with \<open>R z y\<close> asym show False by blast
  qed
  with Cons.prems zs have "mset ys = mset zs'" "sorted_wrt R ys" "sorted_wrt R zs'"
    by simp_all
  with Cons.IH [of zs'] \<open>y = z\<close> zs show ?case by simp
qed

lemma entryNodes_subset: "set (map fst (entryNodes options ss)) \<subseteq> set ss"
  by (induction ss) (auto simp: Let_def split: option.splits)

lemma sorted_entryNodes:
  "sorted_wrt R ss \<Longrightarrow> sorted_wrt R (map fst (entryNodes options ss))"
proof (induction ss)
  case Nil
  show ?case by simp
next
  case (Cons s ss)
  then have tl: "sorted_wrt R (map fst (entryNodes options ss))" and hd: "\<forall>x\<in>set ss. R s x"
    by simp_all
  from hd entryNodes_subset [of options ss]
  have "\<forall>x\<in>set (map fst (entryNodes options ss)). R s x" by blast
  with tl show ?case
    by (auto simp: Let_def split: option.splits)
qed

lemma consistent_anti:
  "consistent_comparison cmp \<Longrightarrow> (cmp a b < 0) = (cmp b a > 0)"
  by (simp add: consistent_comparison_def)

lemma consistent_trans:
  "consistent_comparison cmp \<Longrightarrow> cmp a b \<le> 0 \<Longrightarrow> cmp b c \<le> 0 \<Longrightarrow> cmp a c \<le> 0"
  unfolding consistent_comparison_def by blast

lemma consistent_zero:
  assumes "consistent_comparison cmp" and "cmp a x = 0"
  shows "cmp x a = 0"
proof -
  have "(cmp a x < 0) = (cmp x a > 0)" and "(cmp x a < 0) = (cmp a x > 0)"
    using assms(1) by (simp_all add: consistent_anti)
  with assms(2) show ?thesis by simp
qed

lemma consistent_equal:
  assumes "consistent_comparison cmp" and "cmp a x = 0" and "cmp a y = 0"
  shows "cmp x y = 0"
proof -
  have xa: "cmp x a = 0" using assms(1,2) by (rule consistent_zero)
  have ya: "cmp y a = 0" using assms(1,3) by (rule consistent_zero)
  have "cmp x y \<le> 0"
    by (rule consistent_trans [OF assms(1), of x a y]) (simp_all add: xa assms(3))
  moreover have "cmp y x \<le> 0"
    by (rule consistent_trans [OF assms(1), of y a x]) (simp_all add: ya assms(2))
  moreover have "(cmp x y < 0) = (cmp y x > 0)"
    using assms(1) by (rule consistent_anti)
  ultimately show ?thesis by simp
qed

lemma sorted_insort_by:
  assumes cmp: "consistent_comparison (localeCompare L)"
    and "sorted_wrt (\<lambda>a b. symbolCompareFunction L a b \<le> 0) ys"
  shows "sorted_wrt (\<lambda>a b. symbolCompareFunction L a b \<le> 0)
           (insort_by (symbolCompareFunction L) x ys)"
  using assms(2)
proof (induction ys)
  case Nil
  show ?case by simp
next
  case (Cons y ys)
  show ?case
  proof (cases "symbolCompareFunction L x y \<le> 0")
    case True
    have "symbolCompareFunction L x z \<le> 0" if "z \<in> set ys" for z
    proof -
      from Cons.prems that have "symbolCompareFunction L y z \<le> 0" by simp
      with True show ?thesis
        unfolding symbolCompareFunction_def by (rule consistent_trans [OF cmp])
    qed
    with True Cons.prems show ?thesis by simp
  next
    case False
    then have "symbolCompareFunction L y x < 0"
      using consistent_anti [OF cmp, of "sym_name y" "sym_name x"]
      by (simp add: symbolCompareFunction_def)
    then have yx: "symbolCompareFunction L y x \<le> 0" by simp
    from Cons have "sorted_wrt (\<lambda>a b. symbolCompareFunction L a b \<le> 0)
           (insort_by (symbolCompareFunction L) x ys)" by simp
    with False yx Cons.prems show ?thesis
      by (auto simp: set_insort_by)
  qed
qed

lemma sorted_array_sort:
  assumes "consistent_comparison (localeCompare L)"
  shows "sorted_wrt (\<lambda>a b. symbolCompareFunction L a b \<le> 0)
           (array_sort (symbolCompareFunction L) xs)"
proof (induction xs)
  case Nil
  show ?case by (simp add: array_sort_def)
next
  case (Cons x xs)
  with assms show ?case
    by (simp add: array_sort_Cons sorted_insort_by)
qed

lemma filter_insort_by:
  assumes cmp: "consistent_comparison (localeCompare L)"
  shows "filter (\<lambda>b. symbolCompareFunction L a b = 0) (insort_by (symbolCompareFunction L) x ys)
       = (if symbolCompareFunction L a x = 0
          then x # filter (\<lambda>b. symbolCompareFunction L a b = 0) ys
          else filter (\<lambda>b. symbolCompareFunction L a b = 0) ys)"
proof (induction ys)
  case Nil
  show ?case by simp
next
  case (Cons y ys)
  show ?case
  proof (cases "symbolCompareFunction L x y \<le> 0")
    case True
    then show ?thesis by simp
  next
    case False
    have "\<not> (symbolCompareFunction L a x = 0 \<and> symbolCompareFunction L a y = 0)"
    proof
      assume "symbolCompareFunction L a x = 0 \<and> symbolCompareFunction L a y = 0"
      then have "localeCompare L (sym_name x) (sym_name y) = 0"
        unfolding symbolCompareFunction_def
        using consistent_equal [OF cmp, of "sym_name a" "sym_name x" "sym_name y"] by simp
      with False show False by (simp add: symbolCompareFunction_def)
    qed
    with False Cons show ?thesis by simp
  qed
qed

lemma filter_array_sort:
  assumes "consistent_comparison (localeCompare L)"
  shows "filter (\<lambda>b. symbolCompareFunction L a b = 0) (array_sort (symbolCompareFunction L) xs)
       = filter (\<lambda>b. symbolCompareFunction L a b = 0) xs"
  by (induction xs) (simp_all add: array_sort_def filter_insort_by [OF assms])

lemma told_apart_strict:
  assumes "told_apart (localeCompare L) (map sym_name xs)"
    and "mset ys = mset xs"
    and "sorted_wrt (\<lambda>a b. symbolCompareFunction L a b \<le> 0) ys"
  shows "sorted_wrt (\<lambda>a b. symbolCompareFunction L a b < 0) ys"
proof -
  from assms(2) have m: "mset (map sym_name ys) = mset (map sym_name xs)" by simp
  from assms(1) have "distinct (map sym_name xs)"
    by (simp add: told_apart_def)
  with m have d: "distinct (map sym_name ys)"
    by (metis mset_eq_imp_distinct_iff)
  from m have s: "set (map sym_name ys) = set (map sym_name xs)"
    by (rule mset_eq_setD)
  have "symbolCompareFunction L (ys ! i) (ys ! j) < 0" if "i < j" "j < length ys" for i j
  proof -
    from that have ij: "i < length (map sym_name ys)" "j < length (map sym_name ys)" "i \<noteq> j"
      by simp_all
    have "(map sym_name ys ! i = map sym_name ys ! j) = (i = j)"
      using d ij(1,2) by (rule nth_eq_iff_index_eq)
    moreover have "map sym_name ys ! i = sym_name (ys ! i)"
      and "map sym_name ys ! j = sym_name (ys ! j)"
      using that by simp_all
    ultimately have "sym_name (ys ! i) \<noteq> sym_name (ys ! j)"
      using ij(3) by simp
    moreover from that have "sym_name (ys ! i) \<in> set (map sym_name ys)"
      and "sym_name (ys ! j) \<in> set (map sym_name ys)"
      by simp_all
    ultimately have "localeCompare L (sym_name (ys ! i)) (sym_name (ys ! j)) \<noteq> 0"
      using assms(1) s unfolding told_apart_def by blast
    moreover from assms(3) that have "symbolCompareFunction L (ys ! i) (ys ! j) \<le> 0"
      by (simp add: sorted_wrt_iff_nth_less)
    ultimately show ?thesis
      by (simp add: symbolCompareFunction_def)
  qed
  then show ?thesis
    by (simp add: sorted_wrt_iff_nth_less)
qed

lemma array_sort_permutation:
  assumes cmp: "consistent_comparison (localeCompare L)"
    and apart: "told_apart (localeCompare L) (map sym_name xs)" and m: "mset ys = mset xs"
  shows "array_sort (symbolCompareFunction L) ys = array_sort (symbolCompareFunction L) xs"
proof (rule sorted_wrt_unique [where R = "\<lambda>a b. symbolCompareFunction L a b < 0"])
  fix a b
  assume "symbolCompareFunction L a b < 0"
  then show "\<not> symbolCompareFunction L b a < 0"
    using consistent_anti [OF cmp, of "sym_name a" "sym_name b"]
    by (simp add: symbolCompareFunction_def)
next
  show "sorted_wrt (\<lambda>a b. symbolCompareFunction L a b < 0)
      (array_sort (symbolCompareFunction L) ys)"
    using apart
  proof (rule told_apart_strict)
    show "mset (array_sort (symbolCompareFunction L) ys) = mset xs"
      using m by (simp add: mset_array_sort)
    show "sorted_wrt (\<lambda>a b. symbolCompareFunction L a b \<le> 0)
       (array_sort (symbolCompareFunction L) ys)"
      using cmp by (rule sorted_array_sort)
  qed
  show "sorted_wrt (\<lambda>a b. symbolCompareFunction L a b < 0)
      (array_sort (symbolCompareFunction L) xs)"
    using apart
  proof (rule told_apart_strict)
    show "mset (array_sort (symbolCompareFunction L) xs) = mset xs"
      by (simp add: mset_array_sort)
    show "sorted_wrt (\<lambda>a b. symbolCompareFunction L a b \<le> 0)
       (array_sort (symbolCompareFunction L) xs)"
      using cmp by (rule sorted_array_sort)
  qed
  from m show "mset (array_sort (symbolCompareFunction L) ys)
      = mset (array_sort (symbolCompareFunction L) xs)"
    by (simp add: mset_array_sort)
qed

text \<open>
  Claim C4, amended. The symbols are sorted by \<open>emitResolvedDeclarations\<close> itself: for a
  \<^verbatim>\<open>localeCompare\<close> that is the comparison of a total preorder, the run on an entry file
  whose symbols resolve is the loop over these symbols sorted by name, and its output is
  the entries of the sorted symbols that reach the output, in this order. The sorted list
  is a permutation of the given one, ascending by name, and symbols whose names compare
  equal keep the order in which they were given. When the comparison tells the names of the
  symbols apart, the entries are in strict ascending order of name, every program whose
  resolved symbols are a permutation of these has the same result, and sorting a list that
  is sorted already changes nothing.
\<close>

theorem entries_in_name_order:
  assumes "consistent_comparison (localeCompare L)"
    and "filter (\<lambda>sf. sf_fileName sf = entry) (getSourceFiles P) = sourceFile # rest"
    and "getResolvedSymbols P sourceFile = Inr symbols"
  shows "emitResolvedDeclarations P L entry options
           = emitLoop L options (array_sort (symbolCompareFunction L) symbols)
               \<lparr>out = [], warnings = []\<rparr>
       \<and> map_sum id out (emitResolvedDeclarations P L entry options)
           = map_sum id (\<lambda>ts. join [CHR 0x0A] (map (\<lambda>t. stripEmptyLines t @ [CHR 0x0A]) ts))
               (map_throw (getSanitizedText L options)
                  (map snd (entryNodes options (array_sort (symbolCompareFunction L) symbols))))
       \<and> mset (array_sort (symbolCompareFunction L) symbols) = mset symbols
       \<and> sorted_wrt (\<lambda>a b. localeCompare L (sym_name a) (sym_name b) \<le> 0)
            (map fst (entryNodes options (array_sort (symbolCompareFunction L) symbols)))
       \<and> (\<forall>a::symbol. filter (\<lambda>b. localeCompare L (sym_name a) (sym_name b) = 0)
                  (array_sort (symbolCompareFunction L) symbols)
                = filter (\<lambda>b. localeCompare L (sym_name a) (sym_name b) = 0) symbols)
       \<and> (told_apart (localeCompare L) (map sym_name symbols)
            \<longrightarrow> sorted_wrt (\<lambda>a b. localeCompare L (sym_name a) (sym_name b) < 0)
                  (map fst (entryNodes options (array_sort (symbolCompareFunction L) symbols)))
              \<and> (\<forall>P' sourceFile' rest' symbols'.
                    filter (\<lambda>sf. sf_fileName sf = entry) (getSourceFiles P') = sourceFile' # rest'
                    \<and> getResolvedSymbols P' sourceFile' = Inr symbols'
                    \<and> mset symbols' = mset symbols
                   \<longrightarrow> emitResolvedDeclarations P' L entry options
                         = emitResolvedDeclarations P L entry options)
              \<and> (sorted_wrt (\<lambda>a b. localeCompare L (sym_name a) (sym_name b) < 0) symbols
                   \<longrightarrow> array_sort (symbolCompareFunction L) symbols = symbols))"
proof (intro conjI allI impI)
  show run: "emitResolvedDeclarations P L entry options
           = emitLoop L options (array_sort (symbolCompareFunction L) symbols)
               \<lparr>out = [], warnings = []\<rparr>"
    using assms(2,3) by (simp add: emitResolvedDeclarations_def)
  have "fold (\<lambda>t acc. appendEntry acc t) ts []
          = join [CHR 0x0A] (map (\<lambda>t. stripEmptyLines t @ [CHR 0x0A]) ts)" for ts
    by (simp add: fold_appendEntry)
  then show "map_sum id out (emitResolvedDeclarations P L entry options)
           = map_sum id (\<lambda>ts. join [CHR 0x0A] (map (\<lambda>t. stripEmptyLines t @ [CHR 0x0A]) ts))
               (map_throw (getSanitizedText L options)
                  (map snd (entryNodes options (array_sort (symbolCompareFunction L) symbols))))"
    by (simp add: run emitLoop_entries)
  show "mset (array_sort (symbolCompareFunction L) symbols) = mset symbols"
    by (rule mset_array_sort)
  have le: "sorted_wrt (\<lambda>a b. symbolCompareFunction L a b \<le> 0)
             (array_sort (symbolCompareFunction L) symbols)"
    using assms(1) by (rule sorted_array_sort)
  then have "sorted_wrt (\<lambda>a b. symbolCompareFunction L a b \<le> 0)
           (map fst (entryNodes options (array_sort (symbolCompareFunction L) symbols)))"
    by (rule sorted_entryNodes)
  then show "sorted_wrt (\<lambda>a b. localeCompare L (sym_name a) (sym_name b) \<le> 0)
            (map fst (entryNodes options (array_sort (symbolCompareFunction L) symbols)))"
    by (simp add: symbolCompareFunction_def)
  show "filter (\<lambda>b. localeCompare L (sym_name a) (sym_name b) = 0)
                  (array_sort (symbolCompareFunction L) symbols)
                = filter (\<lambda>b. localeCompare L (sym_name a) (sym_name b) = 0) symbols"
    for a :: symbol
    using filter_array_sort [OF assms(1), of a symbols] by (simp add: symbolCompareFunction_def)
  assume apart: "told_apart (localeCompare L) (map sym_name symbols)"
  have strict: "sorted_wrt (\<lambda>a b. symbolCompareFunction L a b < 0)
             (array_sort (symbolCompareFunction L) symbols)"
    using apart mset_array_sort le by (rule told_apart_strict)
  then have "sorted_wrt (\<lambda>a b. symbolCompareFunction L a b < 0)
           (map fst (entryNodes options (array_sort (symbolCompareFunction L) symbols)))"
    by (rule sorted_entryNodes)
  then show "sorted_wrt (\<lambda>a b. localeCompare L (sym_name a) (sym_name b) < 0)
            (map fst (entryNodes options (array_sort (symbolCompareFunction L) symbols)))"
    by (simp add: symbolCompareFunction_def)
  have asym: "\<not> symbolCompareFunction L b a < 0" if "symbolCompareFunction L a b < 0" for a b
    using that consistent_anti [OF assms(1), of "sym_name a" "sym_name b"]
    by (simp add: symbolCompareFunction_def)
  {
    assume "sorted_wrt (\<lambda>a b. localeCompare L (sym_name a) (sym_name b) < 0) symbols"
    then have given: "sorted_wrt (\<lambda>a b. symbolCompareFunction L a b < 0) symbols"
      by (simp add: symbolCompareFunction_def)
    show "array_sort (symbolCompareFunction L) symbols = symbols"
    proof (rule sorted_wrt_unique [where R = "\<lambda>a b. symbolCompareFunction L a b < 0"])
      show "\<not> symbolCompareFunction L b a < 0" if "symbolCompareFunction L a b < 0" for a b
        using that by (rule asym)
      show "sorted_wrt (\<lambda>a b. symbolCompareFunction L a b < 0)
          (array_sort (symbolCompareFunction L) symbols)"
        by (rule strict)
      show "sorted_wrt (\<lambda>a b. symbolCompareFunction L a b < 0) symbols"
        by (rule given)
      show "mset (array_sort (symbolCompareFunction L) symbols) = mset symbols"
        by (rule mset_array_sort)
    qed
  }
  fix P' sourceFile' rest' symbols'
  assume other: "filter (\<lambda>sf. sf_fileName sf = entry) (getSourceFiles P') = sourceFile' # rest'
                    \<and> getResolvedSymbols P' sourceFile' = Inr symbols'
                    \<and> mset symbols' = mset symbols"
  then have "mset symbols' = mset symbols" by simp
  then have "array_sort (symbolCompareFunction L) symbols'
               = array_sort (symbolCompareFunction L) symbols"
    by (rule array_sort_permutation [OF assms(1) apart])
  moreover from other have "emitResolvedDeclarations P' L entry options
      = emitLoop L options (array_sort (symbolCompareFunction L) symbols')
          \<lparr>out = [], warnings = []\<rparr>"
    by (simp add: emitResolvedDeclarations_def)
  ultimately show "emitResolvedDeclarations P' L entry options
                         = emitResolvedDeclarations P L entry options"
    by (simp only: run)
qed

lemma compareFunction_sign:
  fixes x y :: "'a::linorder"
  shows "(compareFunction (Some x) (Some y) < 0) = (x < y)"
    and "(compareFunction (Some x) (Some y) \<le> 0) = (x \<le> y)"
    and "(compareFunction (Some x) (Some y) = 0) = (x = y)"
    and "(0 < compareFunction (Some x) (Some y)) = (y < x)"
proof -
  consider "x < y" | "x = y" | "y < x" by (rule linorder_cases)
  then have "(compareFunction (Some x) (Some y) < 0) = (x < y)
    \<and> (compareFunction (Some x) (Some y) \<le> 0) = (x \<le> y)
    \<and> (compareFunction (Some x) (Some y) = 0) = (x = y)
    \<and> (0 < compareFunction (Some x) (Some y)) = (y < x)"
  proof cases
    case 1
    then have "\<not> y < x" "x \<noteq> y" "x \<le> y"
      by (simp_all add: less_asym less_imp_le less_imp_neq)
    with 1 show ?thesis by (simp add: compareFunction_def)
  next
    case 2
    then show ?thesis by (simp add: compareFunction_def)
  next
    case 3
    then have "\<not> x < y" "x \<noteq> y" "\<not> x \<le> y"
      by (simp_all add: less_asym less_imp_neq [symmetric] not_le)
    with 3 show ?thesis by (simp add: compareFunction_def)
  qed
  then show "(compareFunction (Some x) (Some y) < 0) = (x < y)"
    and "(compareFunction (Some x) (Some y) \<le> 0) = (x \<le> y)"
    and "(compareFunction (Some x) (Some y) = 0) = (x = y)"
    and "(0 < compareFunction (Some x) (Some y)) = (y < x)"
    by simp_all
qed

lemma letterCompare_sign:
  "(letterCompare a b < 0)
     = (map foldCase a < map foldCase b \<or> (map foldCase a = map foldCase b \<and> b < a))"
  "(letterCompare a b \<le> 0)
     = (map foldCase a < map foldCase b \<or> (map foldCase a = map foldCase b \<and> b \<le> a))"
  "(0 < letterCompare a b)
     = (map foldCase b < map foldCase a \<or> (map foldCase a = map foldCase b \<and> a < b))"
proof -
  consider "map foldCase a < map foldCase b" | "map foldCase a = map foldCase b"
    | "map foldCase b < map foldCase a" by (rule linorder_cases)
  then have "(letterCompare a b < 0)
       = (map foldCase a < map foldCase b \<or> (map foldCase a = map foldCase b \<and> b < a))
    \<and> (letterCompare a b \<le> 0)
       = (map foldCase a < map foldCase b \<or> (map foldCase a = map foldCase b \<and> b \<le> a))
    \<and> (0 < letterCompare a b)
       = (map foldCase b < map foldCase a \<or> (map foldCase a = map foldCase b \<and> a < b))"
  proof cases
    case 1
    then have n: "\<not> map foldCase b < map foldCase a" "map foldCase a \<noteq> map foldCase b"
      by (simp_all add: less_asym less_imp_neq)
    then have "compareFunction (Some (map foldCase a)) (Some (map foldCase b)) = - 1"
      by (simp add: compareFunction_def)
    with 1 n show ?thesis by (simp add: letterCompare_def js_or_def)
  next
    case 2
    then have "letterCompare a b = compareFunction (Some b) (Some a)"
      by (simp add: letterCompare_def js_or_def compareFunction_def)
    with 2 show ?thesis by (simp add: compareFunction_sign)
  next
    case 3
    then have n: "\<not> map foldCase a < map foldCase b" "map foldCase a \<noteq> map foldCase b"
      by (simp_all add: less_asym less_imp_neq [symmetric])
    with 3 have "compareFunction (Some (map foldCase a)) (Some (map foldCase b)) = 1"
      by (simp add: compareFunction_def)
    with 3 n show ?thesis by (simp add: letterCompare_def js_or_def)
  qed
  then show "(letterCompare a b < 0)
     = (map foldCase a < map foldCase b \<or> (map foldCase a = map foldCase b \<and> b < a))"
    and "(letterCompare a b \<le> 0)
     = (map foldCase a < map foldCase b \<or> (map foldCase a = map foldCase b \<and> b \<le> a))"
    and "(0 < letterCompare a b)
     = (map foldCase b < map foldCase a \<or> (map foldCase a = map foldCase b \<and> a < b))"
    by simp_all
qed

lemma letterCompare_consistent: "consistent_comparison letterCompare"
  unfolding consistent_comparison_def
proof (intro conjI allI impI)
  fix a b :: string
  show "(letterCompare a b < 0) = (0 < letterCompare b a)"
    unfolding letterCompare_sign [of a b] letterCompare_sign [of b a]
    by (rule arg_cong2 [where f = "(\<or>)"]) (simp_all add: eq_commute)
next
  fix a b c :: string
  assume "letterCompare a b \<le> 0" and "letterCompare b c \<le> 0"
  then have ab: "map foldCase a < map foldCase b \<or> (map foldCase a = map foldCase b \<and> b \<le> a)"
    and bc: "map foldCase b < map foldCase c \<or> (map foldCase b = map foldCase c \<and> c \<le> b)"
    by (simp_all add: letterCompare_sign)
  from ab bc
  have "map foldCase a < map foldCase c \<or> (map foldCase a = map foldCase c \<and> c \<le> a)"
  proof (elim disjE conjE)
    assume "map foldCase a < map foldCase b" "map foldCase b < map foldCase c"
    then have "map foldCase a < map foldCase c" by (rule less_trans)
    then show ?thesis by (rule disjI1)
  next
    assume "map foldCase a < map foldCase b" "map foldCase b = map foldCase c"
    then show ?thesis by simp
  next
    assume "map foldCase a = map foldCase b" "map foldCase b < map foldCase c"
    then show ?thesis by simp
  next
    assume eq: "map foldCase a = map foldCase b" "map foldCase b = map foldCase c"
      and le: "c \<le> b" "b \<le> a"
    from le have "c \<le> a" by (rule order_trans)
    with eq show ?thesis by simp
  qed
  then show "letterCompare a c \<le> 0"
    by (simp add: letterCompare_sign)
qed

lemma englishCompare_consistent: "consistent_comparison englishCompare"
  using letterCompare_consistent
  unfolding consistent_comparison_def englishCompare_def by blast

lemma exampleLibrary_consistent: "consistent_comparison (localeCompare exampleLibrary)"
  using englishCompare_consistent by (simp add: exampleLibrary_def)

lemmas compare_defs = symbolCompareFunction_def exampleLibrary_def englishCompare_def
  letterCompare_def foldCase_def js_or_def compareFunction_def

lemma resolve_plain:
  "list_all (\<lambda>s. sym_flags s AND SymbolFlags_Alias = 0) xs
     \<Longrightarrow> map_throw (resolveSymbol P) xs = Inr xs"
  by (induction xs) (simp_all add: resolveSymbol_def)

lemma api_resolved:
  "filter (\<lambda>sf. sf_fileName sf = ''api.d.ts'') (getSourceFiles (apiProgram exports))
     = [\<lparr>sf_fileName = ''api.d.ts'', sf_symbol = Some apiModule\<rparr>]"
  "list_all (\<lambda>s. sym_flags s AND SymbolFlags_Alias = 0) exports
     \<Longrightarrow> getResolvedSymbols (apiProgram exports)
           \<lparr>sf_fileName = ''api.d.ts'', sf_symbol = Some apiModule\<rparr> = Inr exports"
  by (simp_all add: getResolvedSymbols_def apiProgram_def api_names resolve_plain)

lemma api_plain:
  "list_all (\<lambda>s. sym_flags s AND SymbolFlags_Alias = 0) [zedSymbol, midSymbol, abcSymbol]"
  by (simp add: api_names SymbolFlags_Alias_def)

lemma api_told_apart:
  "told_apart (localeCompare exampleLibrary) [''Zed'', ''mid'', ''Abc'']"
  by (simp add: told_apart_def compare_defs)

text \<open>
  The comparison of the English locale is consistent. The module \<^verbatim>\<open>api.d.ts\<close> exports
  \<^verbatim>\<open>Zed\<close>, \<^verbatim>\<open>mid\<close> and \<^verbatim>\<open>Abc\<close>, names that the comparison tells apart: the entries
  are those of \<^verbatim>\<open>Abc\<close>, \<^verbatim>\<open>mid\<close> and \<^verbatim>\<open>Zed\<close>, and the module that exports the three
  in another order has the same result.
\<close>

theorem entries_in_name_order_witness:
  "consistent_comparison (localeCompare exampleLibrary)
 \<and> filter (\<lambda>sf. sf_fileName sf = ''api.d.ts'')
      (getSourceFiles (apiProgram [zedSymbol, midSymbol, abcSymbol]))
     = [\<lparr>sf_fileName = ''api.d.ts'', sf_symbol = Some apiModule\<rparr>]
 \<and> getResolvedSymbols (apiProgram [zedSymbol, midSymbol, abcSymbol])
      \<lparr>sf_fileName = ''api.d.ts'', sf_symbol = Some apiModule\<rparr>
     = Inr [zedSymbol, midSymbol, abcSymbol]
 \<and> told_apart (localeCompare exampleLibrary) (map sym_name [zedSymbol, midSymbol, abcSymbol])
 \<and> map_sum id out (emitResolvedDeclarations (apiProgram [zedSymbol, midSymbol, abcSymbol])
                     exampleLibrary ''api.d.ts'' noOptions)
     = Inr apiOutput
 \<and> map (\<lambda>(s, decl). sym_name s)
      (entryNodes noOptions
         (array_sort (symbolCompareFunction exampleLibrary) [zedSymbol, midSymbol, abcSymbol]))
     = [''Abc'', ''mid'', ''Zed'']
 \<and> sorted_wrt (\<lambda>a b. localeCompare exampleLibrary (sym_name a) (sym_name b) < 0)
      (map fst (entryNodes noOptions
         (array_sort (symbolCompareFunction exampleLibrary) [zedSymbol, midSymbol, abcSymbol])))
 \<and> emitResolvedDeclarations (apiProgram [midSymbol, abcSymbol, zedSymbol])
      exampleLibrary ''api.d.ts'' noOptions
     = emitResolvedDeclarations (apiProgram [zedSymbol, midSymbol, abcSymbol])
         exampleLibrary ''api.d.ts'' noOptions"
proof -
  let ?P = "apiProgram [zedSymbol, midSymbol, abcSymbol]"
  let ?sf = "\<lparr>sf_fileName = ''api.d.ts'', sf_symbol = Some apiModule\<rparr>"
  have there: "filter (\<lambda>sf. sf_fileName sf = ''api.d.ts'') (getSourceFiles ?P) = ?sf # []"
    by (simp add: api_resolved)
  have resolved: "getResolvedSymbols ?P ?sf = Inr [zedSymbol, midSymbol, abcSymbol]"
    using api_plain by (rule api_resolved)
  have apart: "told_apart (localeCompare exampleLibrary)
                 (map sym_name [zedSymbol, midSymbol, abcSymbol])"
    using api_told_apart by (simp add: api_names)
  note order = entries_in_name_order [OF exampleLibrary_consistent there resolved,
      of noOptions]
  note assembled = order [THEN conjunct2, THEN conjunct1]
  note strict = order [THEN conjunct2, THEN conjunct2, THEN conjunct2, THEN conjunct2,
      THEN conjunct2, THEN mp, OF apart]
  have c5: "map_sum id out (emitResolvedDeclarations ?P exampleLibrary ''api.d.ts'' noOptions)
              = Inr apiOutput"
    unfolding assembled sorted_api nodes_api texts_api
    by (simp add: stripEmptyLines_def apiOutput_def)
  have c6: "map (\<lambda>(s, decl). sym_name s)
      (entryNodes noOptions
         (array_sort (symbolCompareFunction exampleLibrary) [zedSymbol, midSymbol, abcSymbol]))
     = [''Abc'', ''mid'', ''Zed'']"
    unfolding sorted_api
    by (simp add: noOptions_def symbolDeclaration_def abcSymbol_def zedSymbol_def midSymbol_def
      midDeclaration_def emptyClass_def midStatement_def token_sel NodeFlags_Export_def Let_def)
  note c7 = strict [THEN conjunct1]
  have other: "filter (\<lambda>sf. sf_fileName sf = ''api.d.ts'')
         (getSourceFiles (apiProgram [midSymbol, abcSymbol, zedSymbol])) = ?sf # []
     \<and> getResolvedSymbols (apiProgram [midSymbol, abcSymbol, zedSymbol]) ?sf
         = Inr [midSymbol, abcSymbol, zedSymbol]
     \<and> mset [midSymbol, abcSymbol, zedSymbol] = mset [zedSymbol, midSymbol, abcSymbol]"
  proof (intro conjI)
    show "filter (\<lambda>sf. sf_fileName sf = ''api.d.ts'')
         (getSourceFiles (apiProgram [midSymbol, abcSymbol, zedSymbol])) = ?sf # []"
      by (simp add: api_resolved)
    have "list_all (\<lambda>s. sym_flags s AND SymbolFlags_Alias = 0)
            [midSymbol, abcSymbol, zedSymbol]"
      using api_plain by simp
    then show "getResolvedSymbols (apiProgram [midSymbol, abcSymbol, zedSymbol]) ?sf
         = Inr [midSymbol, abcSymbol, zedSymbol]"
      by (rule api_resolved)
    show "mset [midSymbol, abcSymbol, zedSymbol] = mset [zedSymbol, midSymbol, abcSymbol]"
      by simp
  qed
  note c8 = strict [THEN conjunct2, THEN conjunct1, THEN spec, THEN spec, THEN spec, THEN spec,
      THEN mp, OF other]
  from exampleLibrary_consistent there resolved apart c5 c6 c7 c8 show ?thesis
    by (simp only: simp_thms)
qed

text \<open>
  The claim as it is stated, for every list of symbols, fails on names that differ and
  compare equal, as the two writings of the accented letter do: the entries are not in
  strict ascending order, and they come in the order of the declarations. The module that
  declares the class of the one writing first is printed with this class first, the module
  that declares the other one first with the other one first.
\<close>

theorem names_differ_output_differs:
  "composed \<noteq> decomposed
 \<and> localeCompare exampleLibrary composed decomposed = 0
 \<and> localeCompare exampleLibrary decomposed composed = 0
 \<and> map sym_name (accentExports composed decomposed) = [composed, decomposed]
 \<and> map_sum id out (emitResolvedDeclarations
       (moduleProgram ''e.d.ts'' (accentExports composed decomposed))
       exampleLibrary ''e.d.ts'' noOptions)
     = Inr (''export declare class '' @ composed @ '' {}'' @ [CHR 0x0A, CHR 0x0A]
            @ ''export declare class '' @ decomposed @ '' {}'' @ [CHR 0x0A])
 \<and> map sym_name (accentExports decomposed composed) = [decomposed, composed]
 \<and> map_sum id out (emitResolvedDeclarations
       (moduleProgram ''e.d.ts'' (accentExports decomposed composed))
       exampleLibrary ''e.d.ts'' noOptions)
     = Inr (''export declare class '' @ decomposed @ '' {}'' @ [CHR 0x0A, CHR 0x0A]
            @ ''export declare class '' @ composed @ '' {}'' @ [CHR 0x0A])"
  by (simp add: composed_def decomposed_def accentExports_def accentFile_def moduleProgram_def
      apiModule_def emitResolvedDeclarations_def getResolvedSymbols_def resolveSymbol_def
      SymbolFlags_Alias_def array_sort_def compare_defs noOptions_def symbolDeclaration_def
      namedClass_def token_sel NodeFlags_Export_def eval_defs stripEmptyLines_def appendEntry_def
      Let_def)

subsection \<open>What the output depends on\<close>
















end
